theory Spec2Isabelle
  imports Complex_Main "HOL-Library.Word" "HOL-Library.Multiset"
begin

section \<open>The chunked storage engine of mark\_storage.py\<close>

text \<open>
  The development embeds \<^verbatim>\<open>ChunkWriter\<close> (\<^verbatim>\<open>__init__\<close>, \<^verbatim>\<open>add_packet\<close>,
  \<^verbatim>\<open>flush\<close>), the write loop \<^verbatim>\<open>cmd_write\<close> and the range query \<^verbatim>\<open>cmd_read\<close>
  of \<^verbatim>\<open>src/mark_storage.py\<close>. The storage directory is an explicit value that
  the writer carries and the reader takes as an argument; every exception the source
  can raise on its way is a value \<open>Inl e\<close>.

  Modelling conventions.
  \<^item> A timestamp is a finite float64; only comparisons, minimum, maximum and
    \<^verbatim>\<open>str\<close> are applied to it, so it is modelled by the real number it denotes
    (NaN and rounding of the CSV text are outside the model).
  \<^item> A numpy array with at least two axes is a record of its trailing shape
    (\<^verbatim>\<open>shape[1:]\<close>) and of its rows along the leading axis, each row flattened in C order.
  \<^item> \<^verbatim>\<open>str(t) + ".parquet"\<close> is injective on finite floats, so a chunk file name is
    the constructor \<open>Parquet\<close> applied to the timestamp it is derived from.
  \<^item> Writing a file never fails (a full disk or a read-only directory is outside
    the model); reading a file that is absent fails.
\<close>

subsection \<open>Records, arrays, files\<close>

type_synonym ts = real

type_synonym frow = "32 word list"

record ndarray =
  shape_tail :: "nat list"
  data :: "frow list"

record packet =
  timestamps :: "ts list"
  scattering :: ndarray
  spectral :: ndarray

datatype error = ValueError | IndexError | KeyError | FileNotFoundError

datatype filename = Parquet ts

text \<open>
  One row of a chunk data frame: column \<^verbatim>\<open>ts_0\<close>, the columns \<^verbatim>\<open>scat_i\<close> taken
  together and the columns \<^verbatim>\<open>spec_i\<close> taken together. \<open>None\<close> is the NaN with which
  \<^verbatim>\<open>pd.concat(axis=1)\<close> pads a frame that is shorter than the others.
\<close>

record chunk_row =
  ts_0 :: "ts option"
  scat_cols :: "frow option"
  spec_cols :: "frow option"

record index_entry =
  filename :: filename
  min_ts :: ts
  max_ts :: ts

text \<open>
  The storage directory: \<^verbatim>\<open>index.csv\<close> (absent, or its header line and its data rows
  in file order) and the chunk files by name.
\<close>

record storage =
  index_file :: "(string list \<times> index_entry list) option"
  chunk_files :: "filename \<rightharpoonup> chunk_row list"

record writer =
  buffer_timestamps :: "ts list list"
  buffer_scattering :: "ndarray list"
  buffer_spectral :: "ndarray list"
  particle_counter :: nat
  output_path :: storage

definition empty_dir :: storage where
  "empty_dir = \<lparr>index_file = None, chunk_files = Map.empty\<rparr>"

definition bind_err :: "error + 'a \<Rightarrow> ('a \<Rightarrow> error + 'b) \<Rightarrow> error + 'b" where
  "bind_err m f = (case m of Inl e \<Rightarrow> Inl e | Inr x \<Rightarrow> f x)"

subsection \<open>The numpy and pandas operations that flush uses\<close>

text \<open>\<^verbatim>\<open>np.concatenate\<close> of one-dimensional arrays: an empty list of arrays is a ValueError.\<close>

definition np_concatenate_1d :: "ts list list \<Rightarrow> error + ts list" where
  "np_concatenate_1d arrs = (if arrs = [] then Inl ValueError else Inr (concat arrs))"

text \<open>
  \<^verbatim>\<open>np.concatenate\<close> along axis 0: an empty list of arrays, or arrays whose trailing
  shapes differ, is a ValueError.
\<close>

definition np_concatenate :: "ndarray list \<Rightarrow> error + ndarray" where
  "np_concatenate arrs =
     (case arrs of
        [] \<Rightarrow> Inl ValueError
      | a # rest \<Rightarrow>
          if list_all (\<lambda>b. shape_tail b = shape_tail a) rest
          then Inr \<lparr>shape_tail = shape_tail a, data = concat (map data arrs)\<rparr>
          else Inl ValueError)"

text \<open>
  \<^verbatim>\<open>a.reshape(a.shape[0], -1)\<close>: the rows are already flattened, the trailing shape
  becomes its product; numpy cannot infer the free axis of an array with no rows and
  raises ValueError.
\<close>

definition reshape_rows :: "ndarray \<Rightarrow> error + ndarray" where
  "reshape_rows a =
     (if data a = [] then Inl ValueError
      else Inr \<lparr>shape_tail = [prod_list (shape_tail a)], data = data a\<rparr>)"

definition nth_opt :: "'a list \<Rightarrow> nat \<Rightarrow> 'a option" where
  "nth_opt xs i = (if i < length xs then Some (xs ! i) else None)"

text \<open>
  \<^verbatim>\<open>pd.concat([df_ts, df_scat, df_spec], axis=1)\<close>: the three frames carry the default
  index \<open>0..n-1\<close>; the result has the union of the indexes and NaN where a frame has no
  such row.
\<close>

definition pd_concat_columns :: "ts list \<Rightarrow> frow list \<Rightarrow> frow list \<Rightarrow> chunk_row list" where
  "pd_concat_columns tsb scb spb =
     map (\<lambda>i. \<lparr>ts_0 = nth_opt tsb i, scat_cols = nth_opt scb i, spec_cols = nth_opt spb i\<rparr>)
       [0 ..< max (length tsb) (max (length scb) (length spb))]"

definition to_parquet :: "storage \<Rightarrow> filename \<Rightarrow> chunk_row list \<Rightarrow> storage" where
  "to_parquet st f df = st\<lparr>chunk_files := (chunk_files st)(f \<mapsto> df)\<rparr>"

definition index_header :: "string list" where
  "index_header = [''filename'', ''min_ts'', ''max_ts'']"

text \<open>
  \<^verbatim>\<open>csv_df.to_csv(index_path, mode="a", header=not index_path.exists(), index=False)\<close>:
  the header line is written only when the file does not exist yet.
\<close>

definition to_csv_append :: "storage \<Rightarrow> index_entry \<Rightarrow> storage" where
  "to_csv_append st e =
     (case index_file st of
        None \<Rightarrow> st\<lparr>index_file := Some (index_header, [e])\<rparr>
      | Some (h, es) \<Rightarrow> st\<lparr>index_file := Some (h, es @ [e])\<rparr>)"

subsection \<open>ChunkWriter\<close>

definition ChunkWriter_init :: "storage \<Rightarrow> writer" where
  "ChunkWriter_init st =
     \<lparr>buffer_timestamps = [], buffer_scattering = [], buffer_spectral = [],
      particle_counter = 0, output_path = st\<rparr>"

definition flush :: "writer \<Rightarrow> error + writer" where
  "flush w =
     (if particle_counter w = 0 then Inr w
      else
        bind_err (np_concatenate_1d (buffer_timestamps w)) (\<lambda>timestamp_buffer.
        bind_err (np_concatenate (buffer_scattering w)) (\<lambda>scat_cat.
        bind_err (np_concatenate (buffer_spectral w)) (\<lambda>spec_cat.
        bind_err (reshape_rows scat_cat) (\<lambda>scat_buffer.
        bind_err (reshape_rows spec_cat) (\<lambda>spec_buffer.
          let df = pd_concat_columns timestamp_buffer (data scat_buffer) (data spec_buffer)
          in case timestamp_buffer of
               [] \<Rightarrow> Inl IndexError
             | t0 # rest \<Rightarrow>
                 let st1 = to_parquet (output_path w) (Parquet t0) df;
                     st2 = to_csv_append st1
                             \<lparr>filename = Parquet t0,
                              min_ts = fold min rest t0,
                              max_ts = fold max rest t0\<rparr>
                 in Inr \<lparr>buffer_timestamps = [], buffer_scattering = [],
                         buffer_spectral = [], particle_counter = 0,
                         output_path = st2\<rparr>))))))"

definition buffer_packet :: "writer \<Rightarrow> packet \<Rightarrow> writer" where
  "buffer_packet w p =
     w\<lparr>buffer_timestamps := buffer_timestamps w @ [timestamps p],
       buffer_scattering := buffer_scattering w @ [scattering p],
       buffer_spectral := buffer_spectral w @ [spectral p],
       particle_counter := particle_counter w + length (data (scattering p))\<rparr>"

definition add_packet :: "writer \<Rightarrow> packet \<Rightarrow> error + writer" where
  "add_packet w p =
     (let w1 = buffer_packet w p
      in if 200000 \<le> particle_counter w1 then flush w1 else Inr w1)"

text \<open>The loop of \<^verbatim>\<open>cmd_write\<close> over the packets of the stream, and its final flush.\<close>

fun add_packets :: "writer \<Rightarrow> packet list \<Rightarrow> error + writer" where
  "add_packets w [] = Inr w"
| "add_packets w (p # ps) = bind_err (add_packet w p) (\<lambda>w'. add_packets w' ps)"

definition cmd_write :: "storage \<Rightarrow> packet list \<Rightarrow> error + writer" where
  "cmd_write st ps = bind_err (add_packets (ChunkWriter_init st) ps) flush"

text \<open>
  Any sequence of calls on writers of one directory: \<open>Reopen\<close> constructs a new
  \<^verbatim>\<open>ChunkWriter\<close> on the directory, dropping the old writer with its buffer.
\<close>

datatype call = AddPacket packet | Flush | Reopen

fun run :: "writer \<Rightarrow> call list \<Rightarrow> error + writer" where
  "run w [] = Inr w"
| "run w (AddPacket p # cs) = bind_err (add_packet w p) (\<lambda>w'. run w' cs)"
| "run w (Flush # cs) = bind_err (flush w) (\<lambda>w'. run w' cs)"
| "run w (Reopen # cs) = run (ChunkWriter_init (output_path w)) cs"

subsection \<open>cmd\_read\<close>

text \<open>
  \<^verbatim>\<open>pd.read_csv\<close> of the index: an absent file is a FileNotFoundError. The columns are
  used by name (\<^verbatim>\<open>index_df["max_ts"]\<close>, \<^verbatim>\<open>row.filename\<close>); a header other than the one
  flush writes lacks them.
\<close>

definition read_csv :: "storage \<Rightarrow> error + index_entry list" where
  "read_csv st =
     (case index_file st of
        None \<Rightarrow> Inl FileNotFoundError
      | Some (h, es) \<Rightarrow> if h = index_header then Inr es else Inl KeyError)"

definition read_parquet :: "storage \<Rightarrow> filename \<Rightarrow> error + chunk_row list" where
  "read_parquet st f =
     (case chunk_files st f of None \<Rightarrow> Inl FileNotFoundError | Some df \<Rightarrow> Inr df)"

text \<open>\<^verbatim>\<open>(index_df["max_ts"] >= start_ts) & (index_df["min_ts"] <= stop_ts)\<close>\<close>

definition index_mask :: "ts \<Rightarrow> ts \<Rightarrow> index_entry \<Rightarrow> bool" where
  "index_mask start_ts stop_ts e \<longleftrightarrow> max_ts e \<ge> start_ts \<and> min_ts e \<le> stop_ts"

text \<open>
  \<^verbatim>\<open>(chunk_df["ts_0"] >= start_ts) & (chunk_df["ts_0"] <= stop_ts)\<close>; a comparison with
  NaN is false.
\<close>

definition time_mask :: "ts \<Rightarrow> ts \<Rightarrow> chunk_row \<Rightarrow> bool" where
  "time_mask start_ts stop_ts r =
     (case ts_0 r of None \<Rightarrow> False | Some t \<Rightarrow> t \<ge> start_ts \<and> t \<le> stop_ts)"

text \<open>The loop over the selected index rows; it stops at the first chunk it cannot read.\<close>

fun read_chunks :: "storage \<Rightarrow> ts \<Rightarrow> ts \<Rightarrow> index_entry list \<Rightarrow> error + chunk_row list list" where
  "read_chunks st start_ts stop_ts [] = Inr []"
| "read_chunks st start_ts stop_ts (row # rows) =
     bind_err (read_parquet st (filename row)) (\<lambda>chunk_df.
     bind_err (read_chunks st start_ts stop_ts rows) (\<lambda>results.
       Inr (filter (time_mask start_ts stop_ts) chunk_df # results)))"

text \<open>
  The outcome of a query: \<open>NothingFound\<close> is the branch that prints
  \<^verbatim>\<open>Found nothing in that timestamp\<close> and returns \<^verbatim>\<open>None\<close>; \<open>Found df\<close> is the
  data frame returned otherwise.
\<close>

datatype query_result = NothingFound | Found "chunk_row list"

definition cmd_read :: "storage \<Rightarrow> ts \<Rightarrow> ts \<Rightarrow> error + query_result" where
  "cmd_read st start_ts stop_ts =
     bind_err (read_csv st) (\<lambda>index_df.
     bind_err (read_chunks st start_ts stop_ts (filter (index_mask start_ts stop_ts) index_df))
       (\<lambda>results. if results = [] then Inr NothingFound else Inr (Found (concat results))))"

subsection \<open>Notions used in the statements\<close>

text \<open>The data rows of the index file, none when the file is absent.\<close>

definition index_rows :: "storage \<Rightarrow> index_entry list" where
  "index_rows st = (case index_file st of None \<Rightarrow> [] | Some (h, es) \<Rightarrow> es)"

text \<open>The counter equals the number of scattering rows held in the buffer.\<close>

definition counter_inv :: "writer \<Rightarrow> bool" where
  "counter_inv w \<longleftrightarrow>
     particle_counter w = sum_list (map (\<lambda>a. length (data a)) (buffer_scattering w))"

text \<open>The index row that flush appends for a buffer whose timestamps are \<open>t0 # rest\<close>.\<close>

definition index_row :: "ts \<Rightarrow> ts list \<Rightarrow> index_entry" where
  "index_row t0 rest =
     \<lparr>filename = Parquet t0, min_ts = fold min rest t0, max_ts = fold max rest t0\<rparr>"

text \<open>
  The writer that flush returns when it writes the data frame \<open>df\<close> for a buffer
  whose timestamps are \<open>t0 # rest\<close>.
\<close>

definition written :: "writer \<Rightarrow> ts \<Rightarrow> ts list \<Rightarrow> chunk_row list \<Rightarrow> writer" where
  "written w t0 rest df =
     \<lparr>buffer_timestamps = [], buffer_scattering = [], buffer_spectral = [],
      particle_counter = 0,
      output_path = to_csv_append (to_parquet (output_path w) (Parquet t0) df)
                      (index_row t0 rest)\<rparr>"

text \<open>
  A shape-consistent record of the stream whose matrices have the trailing shapes
  \<open>A\<close> and \<open>B\<close>: the three leading dimensions agree.
\<close>

definition packet_ok :: "nat list \<Rightarrow> nat list \<Rightarrow> packet \<Rightarrow> bool" where
  "packet_ok A B p \<longleftrightarrow>
     length (data (scattering p)) = length (timestamps p) \<and>
     length (data (spectral p)) = length (timestamps p) \<and>
     shape_tail (scattering p) = A \<and> shape_tail (spectral p) = B"

text \<open>The rows (timestamp, scattering row, spectral row) of aligned columns.\<close>

definition rows_of :: "ts list \<Rightarrow> frow list \<Rightarrow> frow list \<Rightarrow> chunk_row list" where
  "rows_of tsb scb spb =
     map (\<lambda>(t, a, b). \<lparr>ts_0 = Some t, scat_cols = Some a, spec_cols = Some b\<rparr>)
       (zip tsb (zip scb spb))"

definition packet_rows :: "packet \<Rightarrow> chunk_row list" where
  "packet_rows p = rows_of (timestamps p) (data (scattering p)) (data (spectral p))"

text \<open>The buffer holds exactly the records \<open>qs\<close>, in this order, and the counter counts their rows.\<close>

definition holds :: "packet list \<Rightarrow> writer \<Rightarrow> bool" where
  "holds qs w \<longleftrightarrow>
     buffer_timestamps w = map timestamps qs \<and>
     buffer_scattering w = map scattering qs \<and>
     buffer_spectral w = map spectral qs \<and>
     particle_counter w = length (concat (map timestamps qs))"

text \<open>The values of column \<^verbatim>\<open>ts_0\<close> of a chunk, NaN skipped as pandas' min and max do.\<close>

definition ts_column :: "chunk_row list \<Rightarrow> ts list" where
  "ts_column df = List.map_filter ts_0 df"

text \<open>An index row and the chunk that the same flush wrote.\<close>

definition entry_ok :: "index_entry \<times> chunk_row list \<Rightarrow> bool" where
  "entry_ok ec =
     (case ts_column (snd ec) of [] \<Rightarrow> False | t0 # rest \<Rightarrow> fst ec = index_row t0 rest)"

text \<open>
  What one flush does to the directory: it writes the chunk under the file name of its
  index row, then appends the index row.
\<close>

definition write_chunk :: "storage \<Rightarrow> index_entry \<times> chunk_row list \<Rightarrow> storage" where
  "write_chunk st ec = to_csv_append (to_parquet st (filename (fst ec)) (snd ec)) (fst ec)"

text \<open>The directory after the flushes of a history, oldest first.\<close>

definition replay :: "storage \<Rightarrow> (index_entry \<times> chunk_row list) list \<Rightarrow> storage" where
  "replay st hist = fold (\<lambda>ec s. write_chunk s ec) hist st"

subsection \<open>Concrete records\<close>

text \<open>A record with one timestamp, two scattering rows and one spectral row.\<close>

definition ex_mismatch :: packet where
  "ex_mismatch =
     \<lparr>timestamps = [1],
      scattering = \<lparr>shape_tail = [2, 2], data = [[0, 0, 0, 0], [0, 0, 0, 0]]\<rparr>,
      spectral = \<lparr>shape_tail = [3], data = [[0, 0, 0]]\<rparr>\<rparr>"

text \<open>A shape-consistent record with the given timestamps, all matrix entries \<open>v\<close>.\<close>

definition ex_packet :: "ts list \<Rightarrow> 32 word \<Rightarrow> packet" where
  "ex_packet tss v =
     \<lparr>timestamps = tss,
      scattering = \<lparr>shape_tail = [2, 2], data = map (\<lambda>t. [v, v, v, v]) tss\<rparr>,
      spectral = \<lparr>shape_tail = [3], data = map (\<lambda>t. [v, v, v]) tss\<rparr>\<rparr>"

text \<open>The row of such a record at timestamp \<open>t\<close>.\<close>

definition ex_row :: "ts \<Rightarrow> 32 word \<Rightarrow> chunk_row" where
  "ex_row t v = \<lparr>ts_0 = Some t, scat_cols = Some [v, v, v, v], spec_cols = Some [v, v, v]\<rparr>"

text \<open>A shape-consistent record of 200000 rows, all at timestamp 1.\<close>

definition ex_big :: packet where
  "ex_big = ex_packet (1 # replicate 199999 1) 0"

text \<open>A fresh writer on the empty directory after add\_packet of a two-row record.\<close>

definition ex_writer :: writer where
  "ex_writer = buffer_packet (ChunkWriter_init empty_dir) (ex_packet [1, 2] 7)"

text \<open>That writer after its flush.\<close>

definition ex_flushed :: writer where
  "ex_flushed = written ex_writer 1 [2] [ex_row 1 7, ex_row 2 7]"

text \<open>The writer after add\_packet of \<open>ex_big\<close> on a fresh writer: an automatic flush.\<close>

definition ex_auto :: writer where
  "ex_auto = written (buffer_packet (ChunkWriter_init empty_dir) ex_big) 1 (replicate 199999 1)
               (ex_row 1 0 # replicate 199999 (ex_row 1 0))"

text \<open>A directory with two chunks, covering the timestamps 1 to 2 and 5 to 6.\<close>

definition ex_dir :: storage where
  "ex_dir =
     \<lparr>index_file = Some ([''filename'', ''min_ts'', ''max_ts''],
        [\<lparr>filename = Parquet 1, min_ts = 1, max_ts = 2\<rparr>,
         \<lparr>filename = Parquet 5, min_ts = 5, max_ts = 6\<rparr>]),
      chunk_files = [Parquet 1 \<mapsto> [ex_row 1 7, ex_row 2 7],
                     Parquet 5 \<mapsto> [ex_row 5 8, ex_row 6 8]]\<rparr>"

text \<open>
  Two records whose timestamps both begin with 5, each followed by an explicit flush,
  and the writer these calls leave on the empty directory.
\<close>

definition ex_calls :: "call list" where
  "ex_calls = [AddPacket (ex_packet [5, 1, 9] 7), Flush, AddPacket (ex_packet [5, 7] 8), Flush]"

definition ex_collided :: writer where
  "ex_collided =
     ChunkWriter_init
       \<lparr>index_file = Some ([''filename'', ''min_ts'', ''max_ts''],
          [\<lparr>filename = Parquet 5, min_ts = 1, max_ts = 9\<rparr>,
           \<lparr>filename = Parquet 5, min_ts = 5, max_ts = 7\<rparr>]),
        chunk_files = [Parquet 5 \<mapsto> [ex_row 5 8, ex_row 7 8]]\<rparr>"

text \<open>
  The writer that the write loop leaves on the empty directory for the stream
  \<open>ex_big\<close>, then one row at timestamp 1: two index rows name the one file.
\<close>

definition ex_lost :: writer where
  "ex_lost =
     ChunkWriter_init
       \<lparr>index_file = Some ([''filename'', ''min_ts'', ''max_ts''],
          [\<lparr>filename = Parquet 1, min_ts = 1, max_ts = 1\<rparr>,
           \<lparr>filename = Parquet 1, min_ts = 1, max_ts = 1\<rparr>]),
        chunk_files = [Parquet 1 \<mapsto> [ex_row 1 7]]\<rparr>"

text \<open>The writer that the write loop leaves for a stream of two small records.\<close>

definition ex_stored :: writer where
  "ex_stored =
     ChunkWriter_init
       \<lparr>index_file = Some ([''filename'', ''min_ts'', ''max_ts''],
          [\<lparr>filename = Parquet 1, min_ts = 1, max_ts = 3\<rparr>]),
        chunk_files = [Parquet 1 \<mapsto> [ex_row 1 7, ex_row 2 7, ex_row 3 8]]\<rparr>"

section \<open>Basic facts\<close>

lemma bind_err_Inr [simp]: "bind_err (Inr x) f = f x"
  by (simp add: bind_err_def)

lemma bind_err_Inl [simp]: "bind_err (Inl e) f = Inl e"
  by (simp add: bind_err_def)

lemma bind_err_eq_Inr: "bind_err m f = Inr y \<longleftrightarrow> (\<exists>x. m = Inr x \<and> f x = Inr y)"
  by (cases m) simp_all

lemma flush_zero: "particle_counter w = 0 \<Longrightarrow> flush w = Inr w"
  by (simp add: flush_def)

lemma flush_nonzero_eq:
  assumes "particle_counter w \<noteq> 0"
    and "np_concatenate_1d (buffer_timestamps w) = Inr (t0 # rest)"
    and "np_concatenate (buffer_scattering w) = Inr sa" and "reshape_rows sa = Inr sc"
    and "np_concatenate (buffer_spectral w) = Inr sb" and "reshape_rows sb = Inr sp"
  shows "flush w = Inr (written w t0 rest (pd_concat_columns (t0 # rest) (data sc) (data sp)))"
  using assms by (simp add: flush_def written_def index_row_def)

text \<open>Every successful flush of a non-zero counter went through all steps.\<close>

lemma flush_Inr_nonzero:
  assumes "flush w = Inr w'" and "particle_counter w \<noteq> 0"
  obtains t0 rest sa sc sb sp where
    "np_concatenate_1d (buffer_timestamps w) = Inr (t0 # rest)"
    "np_concatenate (buffer_scattering w) = Inr sa" "reshape_rows sa = Inr sc"
    "np_concatenate (buffer_spectral w) = Inr sb" "reshape_rows sb = Inr sp"
    "w' = written w t0 rest (pd_concat_columns (t0 # rest) (data sc) (data sp))"
proof (cases "np_concatenate_1d (buffer_timestamps w)")
  case (Inl e)
  with assms show thesis by (simp add: flush_def)
next
  case tb: (Inr tbuf)
  show thesis
  proof (cases "np_concatenate (buffer_scattering w)")
    case (Inl e)
    with assms tb show thesis by (simp add: flush_def)
  next
    case sa: (Inr sa)
    show thesis
    proof (cases "np_concatenate (buffer_spectral w)")
      case (Inl e)
      with assms tb sa show thesis by (simp add: flush_def)
    next
      case sb: (Inr sb)
      show thesis
      proof (cases "reshape_rows sa")
        case (Inl e)
        with assms tb sa sb show thesis by (simp add: flush_def)
      next
        case sc: (Inr sc)
        show thesis
        proof (cases "reshape_rows sb")
          case (Inl e)
          with assms tb sa sb sc show thesis by (simp add: flush_def)
        next
          case sp: (Inr sp)
          show thesis
          proof (cases tbuf)
            case Nil
            with assms tb sa sb sc sp show thesis by (simp add: flush_def)
          next
            case (Cons t0 rest)
            have "flush w = Inr (written w t0 rest (pd_concat_columns (t0 # rest) (data sc) (data sp)))"
              using assms(2) tb sa sb sc sp Cons by (intro flush_nonzero_eq) simp_all
            with assms(1) have "w' = written w t0 rest (pd_concat_columns (t0 # rest) (data sc) (data sp))" by simp
            then show thesis using that tb sa sb sc sp Cons by simp
          qed
        qed
      qed
    qed
  qed
qed

lemma flush_cases:
  assumes "flush w = Inr w'"
  shows "(particle_counter w = 0 \<and> w' = w) \<or>
         (particle_counter w \<noteq> 0 \<and> buffer_timestamps w' = [] \<and> buffer_scattering w' = []
           \<and> buffer_spectral w' = [] \<and> particle_counter w' = 0)"
proof (cases "particle_counter w = 0")
  case True
  with assms show ?thesis by (simp add: flush_zero)
next
  case False
  from assms False show ?thesis
    by (rule flush_Inr_nonzero) (use False in \<open>simp add: written_def\<close>)
qed

lemma run_append: "run w (xs @ ys) = bind_err (run w xs) (\<lambda>w'. run w' ys)"
proof (induction w xs rule: run.induct)
  case (2 w p cs)
  then show ?case by (cases "add_packet w p") simp_all
next
  case (3 w cs)
  then show ?case by (cases "flush w") simp_all
qed simp_all

section \<open>The particle counter\<close>

lemma counter_inv_flush: "counter_inv w \<Longrightarrow> flush w = Inr w' \<Longrightarrow> counter_inv w'"
  by (drule flush_cases) (auto simp: counter_inv_def)

lemma counter_inv_buffer_packet: "counter_inv w \<Longrightarrow> counter_inv (buffer_packet w p)"
  by (simp add: counter_inv_def buffer_packet_def)

lemma counter_inv_add_packet:
  assumes "counter_inv w" and "add_packet w p = Inr w'"
  shows "counter_inv w'"
proof (cases "200000 \<le> particle_counter (buffer_packet w p)")
  case True
  with assms(2) have "flush (buffer_packet w p) = Inr w'"
    by (simp add: add_packet_def)
  with counter_inv_buffer_packet[OF assms(1)] show ?thesis
    by (rule counter_inv_flush)
next
  case False
  with assms(2) have "w' = buffer_packet w p"
    by (simp add: add_packet_def)
  with counter_inv_buffer_packet[OF assms(1)] show ?thesis by simp
qed

lemma add_packet_below:
  assumes "add_packet w p = Inr w'"
  shows "particle_counter w' < 200000"
proof (cases "200000 \<le> particle_counter (buffer_packet w p)")
  case True
  with assms have "flush (buffer_packet w p) = Inr w'"
    by (simp add: add_packet_def)
  from flush_cases[OF this] True show ?thesis by auto
next
  case False
  with assms show ?thesis by (auto simp: add_packet_def)
qed

lemma counter_inv_init: "counter_inv (ChunkWriter_init st)"
  by (simp add: counter_inv_def ChunkWriter_init_def)

lemma counter_inv_run: "counter_inv w \<Longrightarrow> run w cs = Inr w' \<Longrightarrow> counter_inv w'"
proof (induction w cs rule: run.induct)
  case (1 w)
  then show ?case by simp
next
  case (2 w p cs)
  from 2(3) obtain w1 where a: "add_packet w p = Inr w1" and r: "run w1 cs = Inr w'"
    unfolding run.simps bind_err_eq_Inr by blast
  from counter_inv_add_packet[OF 2(2) a] have "counter_inv w1" .
  with "2.IH" r show ?case by blast
next
  case (3 w cs)
  from 3(3) obtain w1 where a: "flush w = Inr w1" and r: "run w1 cs = Inr w'"
    unfolding run.simps bind_err_eq_Inr by blast
  from counter_inv_flush[OF 3(2) a] have "counter_inv w1" .
  with "3.IH" r show ?case by blast
next
  case (4 w cs)
  from 4(3) have "run (ChunkWriter_init (output_path w)) cs = Inr w'" by simp
  with "4.IH" counter_inv_init show ?case by blast
qed

text \<open>
  C9. After any sequence of calls on a fresh writer that returns, the particle counter
  is the sum of the leading dimensions of the buffered scattering arrays; when the
  last call is an add\_packet, the counter is below 200000.
\<close>

theorem counter_invariant:
  assumes "run (ChunkWriter_init st) cs = Inr w"
  shows "particle_counter w = sum_list (map (\<lambda>a. length (data a)) (buffer_scattering w))
         \<and> (\<forall>cs' p. cs = cs' @ [AddPacket p] \<longrightarrow> particle_counter w < 200000)"
proof (intro conjI allI impI)
  show "particle_counter w = sum_list (map (\<lambda>a. length (data a)) (buffer_scattering w))"
    using counter_inv_run[OF counter_inv_init assms] by (simp add: counter_inv_def)
next
  fix cs' p assume "cs = cs' @ [AddPacket p]"
  with assms have "bind_err (run (ChunkWriter_init st) cs') (\<lambda>w'. run w' [AddPacket p]) = Inr w"
    by (simp only: run_append)
  then obtain w1 where "run w1 [AddPacket p] = Inr w"
    unfolding bind_err_eq_Inr by blast
  then have "bind_err (add_packet w1 p) Inr = Inr w" by simp
  then obtain w2 where "add_packet w1 p = Inr w2" and "Inr w2 = (Inr w :: error + writer)"
    unfolding bind_err_eq_Inr by blast
  then have "add_packet w1 p = Inr w" by simp
  then show "particle_counter w < 200000" by (rule add_packet_below)
qed

lemma ex_run_two:
  "run (ChunkWriter_init empty_dir) [AddPacket (ex_packet [1, 2] 7), AddPacket (ex_packet [3] 8)]
   = Inr \<lparr>buffer_timestamps = [[1, 2], [3]],
          buffer_scattering = [scattering (ex_packet [1, 2] 7), scattering (ex_packet [3] 8)],
          buffer_spectral = [spectral (ex_packet [1, 2] 7), spectral (ex_packet [3] 8)],
          particle_counter = 3, output_path = empty_dir\<rparr>"
  by (simp add: add_packet_def buffer_packet_def ChunkWriter_init_def ex_packet_def)

theorem counter_invariant_witness:
  "run (ChunkWriter_init empty_dir) [AddPacket (ex_packet [1, 2] 7), AddPacket (ex_packet [3] 8)]
     = Inr \<lparr>buffer_timestamps = [[1, 2], [3]],
          buffer_scattering = [scattering (ex_packet [1, 2] 7), scattering (ex_packet [3] 8)],
          buffer_spectral = [spectral (ex_packet [1, 2] 7), spectral (ex_packet [3] 8)],
          particle_counter = 3, output_path = empty_dir\<rparr>
   \<and> (3::nat) = length (data (scattering (ex_packet [1, 2] 7)))
                 + length (data (scattering (ex_packet [3] 8)))
   \<and> (3::nat) < 200000"
proof -
  note r = ex_run_two
  from counter_invariant[OF r]
  have a: "(3::nat) = sum_list (map (\<lambda>a. length (data a))
             [scattering (ex_packet [1, 2] 7), scattering (ex_packet [3] 8)])"
    and b: "\<forall>cs' p. [AddPacket (ex_packet [1, 2] 7), AddPacket (ex_packet [3] 8)]
             = cs' @ [AddPacket p] \<longrightarrow> (3::nat) < 200000"
    by simp_all
  from b have "[AddPacket (ex_packet [1, 2] 7), AddPacket (ex_packet [3] 8)]
             = [AddPacket (ex_packet [1, 2] 7)] @ [AddPacket (ex_packet [3] 8)]
             \<longrightarrow> (3::nat) < 200000"
    by blast
  then have c: "(3::nat) < 200000" by simp
  from a r c show ?thesis by simp
qed

section \<open>add\_packet does not validate shapes\<close>

text \<open>
  C3 (as amended). add\_packet performs no shape check: every record, also one whose
  matrix arrays' leading dimension disagrees with the length of its timestamps, is
  appended to the three buffer lists and the counter grows by the leading dimension of
  its scattering array. Below the threshold the call returns that state; at or above
  it the call is the flush of that state.
\<close>

theorem add_packet_buffers_any_record:
  "(particle_counter w + length (data (scattering p)) < 200000
      \<longrightarrow> add_packet w p = Inr (buffer_packet w p))
   \<and> (200000 \<le> particle_counter w + length (data (scattering p))
      \<longrightarrow> add_packet w p = flush (buffer_packet w p))
   \<and> buffer_timestamps (buffer_packet w p) = buffer_timestamps w @ [timestamps p]
   \<and> buffer_scattering (buffer_packet w p) = buffer_scattering w @ [scattering p]
   \<and> buffer_spectral (buffer_packet w p) = buffer_spectral w @ [spectral p]
   \<and> particle_counter (buffer_packet w p) = particle_counter w + length (data (scattering p))
   \<and> output_path (buffer_packet w p) = output_path w"
  by (simp add: add_packet_def buffer_packet_def)

theorem add_packet_buffers_any_record_witness:
  "add_packet (ChunkWriter_init empty_dir) ex_mismatch
     = Inr (buffer_packet (ChunkWriter_init empty_dir) ex_mismatch)
   \<and> buffer_timestamps (buffer_packet (ChunkWriter_init empty_dir) ex_mismatch) = [[1]]
   \<and> particle_counter (buffer_packet (ChunkWriter_init empty_dir) ex_mismatch) = 2"
  using add_packet_buffers_any_record[of "ChunkWriter_init empty_dir" ex_mismatch]
  by (simp add: ChunkWriter_init_def ex_mismatch_def)

text \<open>
  The record \<open>ex_mismatch\<close> has one timestamp and two scattering rows; add\_packet on
  a fresh writer returns without an error, with the record in the buffer and the
  counter at 2.
\<close>

theorem shape_rejection_counterexample:
  "length (data (scattering ex_mismatch)) \<noteq> length (timestamps ex_mismatch)
   \<and> add_packet (ChunkWriter_init empty_dir) ex_mismatch
       = Inr \<lparr>buffer_timestamps = [[1]],
              buffer_scattering = [scattering ex_mismatch],
              buffer_spectral = [spectral ex_mismatch],
              particle_counter = 2, output_path = empty_dir\<rparr>
   \<and> particle_counter (ChunkWriter_init empty_dir) = 0
   \<and> buffer_timestamps (ChunkWriter_init empty_dir) = []"
  by (simp add: add_packet_def buffer_packet_def ChunkWriter_init_def ex_mismatch_def)

section \<open>Data frames of shape-consistent buffers\<close>

lemma pd_concat_columns_aligned:
  assumes "length scb = length tsb" and "length spb = length tsb"
  shows "pd_concat_columns tsb scb spb = rows_of tsb scb spb"
  using assms
  by (intro nth_equalityI) (simp_all add: pd_concat_columns_def rows_of_def nth_opt_def)

lemma rows_of_append:
  assumes "length a1 = length t1" and "length b1 = length t1"
  shows "rows_of (t1 @ t2) (a1 @ a2) (b1 @ b2) = rows_of t1 a1 b1 @ rows_of t2 a2 b2"
  using assms by (simp add: rows_of_def zip_append)

lemma length_rows_of:
  "length scb = length tsb \<Longrightarrow> length spb = length tsb \<Longrightarrow> length (rows_of tsb scb spb) = length tsb"
  by (simp add: rows_of_def)

lemma concat_lengths_ok:
  assumes "list_all (packet_ok A B) qs"
  shows "length (concat (map (\<lambda>q. data (scattering q)) qs)) = length (concat (map timestamps qs))
       \<and> length (concat (map (\<lambda>q. data (spectral q)) qs)) = length (concat (map timestamps qs))"
  using assms by (induction qs) (simp_all add: packet_ok_def)

lemma concat_packet_rows:
  assumes "list_all (packet_ok A B) qs"
  shows "concat (map packet_rows qs)
         = rows_of (concat (map timestamps qs)) (concat (map (\<lambda>q. data (scattering q)) qs))
             (concat (map (\<lambda>q. data (spectral q)) qs))"
  using assms
proof (induction qs)
  case Nil
  show ?case by (simp add: rows_of_def)
next
  case (Cons q qs)
  then have ok: "packet_ok A B q" and rest: "list_all (packet_ok A B) qs" by simp_all
  from ok have "rows_of (timestamps q @ concat (map timestamps qs))
                  (data (scattering q) @ concat (map (\<lambda>q. data (scattering q)) qs))
                  (data (spectral q) @ concat (map (\<lambda>q. data (spectral q)) qs))
                = packet_rows q @ rows_of (concat (map timestamps qs))
                    (concat (map (\<lambda>q. data (scattering q)) qs))
                    (concat (map (\<lambda>q. data (spectral q)) qs))"
    unfolding packet_rows_def by (intro rows_of_append) (simp_all add: packet_ok_def)
  with Cons.IH[OF rest] show ?case by simp
qed

lemma length_Suc_nonempty: "length xs = Suc n \<Longrightarrow> xs \<noteq> []"
  by auto

lemma np_concatenate_ok:
  assumes "list_all (\<lambda>a. shape_tail a = A) arrs" and "arrs \<noteq> []"
  shows "np_concatenate arrs = Inr \<lparr>shape_tail = A, data = concat (map data arrs)\<rparr>"
proof (cases arrs)
  case Nil
  with assms show ?thesis by simp
next
  case (Cons a rest)
  with assms have "shape_tail a = A" and "list_all (\<lambda>b. shape_tail b = shape_tail a) rest"
    by (simp_all add: list_all_iff)
  with Cons show ?thesis by (simp add: np_concatenate_def)
qed

text \<open>The flush of a non-empty buffer of shape-consistent records.\<close>

lemma flush_holds:
  assumes h: "holds qs w" and ok: "list_all (packet_ok A B) qs"
    and tb: "concat (map timestamps qs) = t0 # rest"
  shows "flush w = Inr (written w t0 rest (concat (map packet_rows qs)))"
proof -
  from tb have ne: "qs \<noteq> []" by auto
  from h tb have cnt: "particle_counter w \<noteq> 0" by (simp add: holds_def)
  from h ne tb have 1: "np_concatenate_1d (buffer_timestamps w) = Inr (t0 # rest)"
    by (simp add: holds_def np_concatenate_1d_def)
  let ?sa = "\<lparr>shape_tail = A, data = concat (map (\<lambda>q. data (scattering q)) qs)\<rparr>"
  let ?sb = "\<lparr>shape_tail = B, data = concat (map (\<lambda>q. data (spectral q)) qs)\<rparr>"
  from ok have "list_all (\<lambda>a. shape_tail a = A) (map scattering qs)"
    by (simp add: list_all_iff packet_ok_def)
  from np_concatenate_ok[OF this] ne h
  have 2: "np_concatenate (buffer_scattering w) = Inr ?sa"
    by (simp add: holds_def comp_def)
  from ok have "list_all (\<lambda>a. shape_tail a = B) (map spectral qs)"
    by (simp add: list_all_iff packet_ok_def)
  from np_concatenate_ok[OF this] ne h
  have 3: "np_concatenate (buffer_spectral w) = Inr ?sb"
    by (simp add: holds_def comp_def)
  note len = concat_lengths_ok[OF ok]
  from len tb have "length (data ?sa) = Suc (length rest)" by simp
  then have "data ?sa \<noteq> []" by (rule length_Suc_nonempty)
  then have 4: "reshape_rows ?sa = Inr \<lparr>shape_tail = [prod_list A], data = data ?sa\<rparr>"
    by (simp add: reshape_rows_def)
  from len tb have "length (data ?sb) = Suc (length rest)" by simp
  then have "data ?sb \<noteq> []" by (rule length_Suc_nonempty)
  then have 5: "reshape_rows ?sb = Inr \<lparr>shape_tail = [prod_list B], data = data ?sb\<rparr>"
    by (simp add: reshape_rows_def)
  have "pd_concat_columns (t0 # rest) (data ?sa) (data ?sb) = concat (map packet_rows qs)"
    using len tb by (simp add: pd_concat_columns_aligned concat_packet_rows[OF ok])
  with flush_nonzero_eq[OF cnt 1 2 4 3 5] show ?thesis by simp
qed

lemma holds_init: "holds [] (ChunkWriter_init st)"
  by (simp add: holds_def ChunkWriter_init_def)

lemma holds_written: "holds [] (written w t0 rest df)"
  by (simp add: holds_def written_def)

lemma holds_buffer_packet:
  assumes "holds qs w" and "packet_ok A B p"
  shows "holds (qs @ [p]) (buffer_packet w p)"
  using assms by (simp add: holds_def buffer_packet_def packet_ok_def)

lemma holds_counter_zero:
  assumes "holds qs w" and "list_all (packet_ok A B) qs" and "particle_counter w = 0"
  shows "concat (map packet_rows qs) = []"
proof -
  from assms(1,3) have "concat (map timestamps qs) = []" by (simp add: holds_def)
  with concat_packet_rows[OF assms(2)] show ?thesis by (simp add: rows_of_def)
qed

section \<open>The directory as a history of flushes\<close>

lemma map_filter_append: "List.map_filter f (xs @ ys) = List.map_filter f xs @ List.map_filter f ys"
  by (simp add: List.map_filter_def)

lemma map_filter_map: "List.map_filter f (map g xs) = List.map_filter (\<lambda>x. f (g x)) xs"
  by (simp add: List.map_filter_def filter_map comp_def)

lemma map_filter_nth_opt:
  assumes "length xs \<le> m"
  shows "List.map_filter (nth_opt xs) [0 ..< m] = xs"
proof -
  from assms have split: "[0 ..< m] = [0 ..< length xs] @ [length xs ..< m]"
  proof -
    have "[0 ..< length xs + (m - length xs)]
          = [0 ..< length xs] @ [length xs ..< length xs + (m - length xs)]"
      by (rule upt_add_eq_append) simp
    with assms show ?thesis by simp
  qed
  have a: "List.map_filter (nth_opt xs) [0 ..< length xs] = xs"
  proof -
    have "filter (\<lambda>i. nth_opt xs i \<noteq> None) [0 ..< length xs] = [0 ..< length xs]"
      by (rule filter_True) (simp add: nth_opt_def)
    moreover have "map (the \<circ> nth_opt xs) [0 ..< length xs] = map ((!) xs) [0 ..< length xs]"
      by (rule map_cong) (simp_all add: nth_opt_def)
    ultimately show ?thesis by (simp add: List.map_filter_def map_nth)
  qed
  have b: "List.map_filter (nth_opt xs) [length xs ..< m] = []"
  proof -
    have "filter (\<lambda>i. nth_opt xs i \<noteq> None) [length xs ..< m] = []"
      by (rule filter_False) (simp add: nth_opt_def)
    then show ?thesis by (simp add: List.map_filter_def)
  qed
  show ?thesis by (simp only: split map_filter_append a b append_Nil2)
qed

lemma ts_column_pd_concat_columns: "ts_column (pd_concat_columns tsb scb spb) = tsb"
  by (simp add: ts_column_def pd_concat_columns_def map_filter_map map_filter_nth_opt)

lemma ts_column_append: "ts_column (xs @ ys) = ts_column xs @ ts_column ys"
  by (simp add: ts_column_def map_filter_append)

lemma ts_column_packet_rows: "packet_ok A B p \<Longrightarrow> ts_column (packet_rows p) = timestamps p"
proof -
  assume ok: "packet_ok A B p"
  have "rows_of (timestamps p) (data (scattering p)) (data (spectral p))
        = pd_concat_columns (timestamps p) (data (scattering p)) (data (spectral p))"
    by (rule pd_concat_columns_aligned[symmetric]) (use ok in \<open>simp_all add: packet_ok_def\<close>)
  then show ?thesis by (simp add: packet_rows_def ts_column_pd_concat_columns)
qed

lemma ts_column_concat_packet_rows:
  "list_all (packet_ok A B) qs \<Longrightarrow> ts_column (concat (map packet_rows qs)) = concat (map timestamps qs)"
proof (induction qs)
  case Nil
  show ?case by (simp add: ts_column_def List.map_filter_simps)
next
  case (Cons q qs)
  then have "packet_ok A B q" and "list_all (packet_ok A B) qs" by simp_all
  with Cons.IH show ?case
    by (simp add: ts_column_append ts_column_packet_rows[of A B q])
qed

lemma output_path_written:
  "output_path (written w t0 rest df) = write_chunk (output_path w) (index_row t0 rest, df)"
  by (simp add: written_def write_chunk_def index_row_def)

lemma replay_Nil [simp]: "replay st [] = st"
  by (simp add: replay_def)

lemma replay_append: "replay st (h @ h') = replay (replay st h) h'"
  by (simp add: replay_def)

lemma replay_snoc: "replay st (h @ [ec]) = write_chunk (replay st h) ec"
  by (simp add: replay_def)

lemma replay_single: "replay st [ec] = write_chunk st ec"
  by (simp add: replay_def)

lemma index_rows_write_chunk: "index_rows (write_chunk st ec) = index_rows st @ [fst ec]"
  by (cases "index_file st")
     (auto simp: index_rows_def write_chunk_def to_csv_append_def to_parquet_def)

lemma index_rows_replay: "index_rows (replay st h) = index_rows st @ map fst h"
  by (induction h rule: rev_induct) (simp_all add: replay_snoc index_rows_write_chunk)

lemma chunk_files_write_chunk:
  "chunk_files (write_chunk st ec) = (chunk_files st)(filename (fst ec) \<mapsto> snd ec)"
  by (cases "index_file st")
     (auto simp: write_chunk_def to_csv_append_def to_parquet_def)

lemma chunk_files_replay_other:
  "f \<notin> set (map (\<lambda>ec. filename (fst ec)) h) \<Longrightarrow> chunk_files (replay st h) f = chunk_files st f"
  by (induction h rule: rev_induct) (simp_all add: replay_snoc chunk_files_write_chunk)

text \<open>A file holds what the last flush under its name wrote.\<close>

lemma chunk_files_replay_last:
  assumes "filename (fst ec) \<notin> set (map (\<lambda>ec. filename (fst ec)) h2)"
  shows "chunk_files (replay st (h1 @ ec # h2)) (filename (fst ec)) = Some (snd ec)"
proof -
  have "replay st (h1 @ ec # h2) = replay (write_chunk (replay st h1) ec) h2"
    by (simp add: replay_def)
  with assms show ?thesis
    by (simp add: chunk_files_replay_other chunk_files_write_chunk)
qed

lemma read_csv_write_chunk_new:
  "index_file st = None \<Longrightarrow> read_csv (write_chunk st ec) = Inr [fst ec]"
  by (simp add: read_csv_def write_chunk_def to_csv_append_def to_parquet_def)

lemma read_csv_write_chunk:
  assumes "read_csv st = Inr es"
  shows "read_csv (write_chunk st ec) = Inr (es @ [fst ec])"
proof (cases "index_file st")
  case None
  with assms show ?thesis by (simp add: read_csv_def)
next
  case (Some hes)
  obtain h es' where hes: "hes = (h, es')" by (cases hes)
  with assms Some have "h = index_header" and "es' = es"
    by (auto simp: read_csv_def split: if_splits)
  with Some hes show ?thesis
    by (simp add: read_csv_def write_chunk_def to_csv_append_def to_parquet_def)
qed

lemma read_csv_index_rows: "read_csv st = Inr es \<Longrightarrow> index_rows st = es"
  by (auto simp: read_csv_def index_rows_def split: option.splits if_splits)

lemma read_csv_replay_empty:
  "h \<noteq> [] \<Longrightarrow> read_csv (replay empty_dir h) = Inr (map fst h)"
proof (induction h rule: rev_induct)
  case Nil
  then show ?case by simp
next
  case (snoc ec h)
  show ?case
  proof (cases "h = []")
    case True
    then show ?thesis
      by (simp add: replay_single read_csv_write_chunk_new empty_dir_def)
  next
    case False
    with snoc.IH have "read_csv (replay empty_dir h) = Inr (map fst h)" by simp
    from read_csv_write_chunk[OF this] show ?thesis by (simp add: replay_snoc)
  qed
qed

section \<open>Ingesting shape-consistent records\<close>

lemma length_pos_nonempty: "length xs = n \<Longrightarrow> 0 < n \<Longrightarrow> xs \<noteq> []"
  by auto

lemma entry_ok_index_row:
  "ts_column df = t0 # rest \<Longrightarrow> entry_ok (index_row t0 rest, df)"
  by (simp add: entry_ok_def)

lemma flush_holds_history:
  assumes h: "holds qs w" and ok: "list_all (packet_ok A B) qs"
    and tb: "concat (map timestamps qs) = t0 # rest"
  shows "flush w = Inr (written w t0 rest (concat (map packet_rows qs)))"
    and "output_path (written w t0 rest (concat (map packet_rows qs)))
         = replay (output_path w) [(index_row t0 rest, concat (map packet_rows qs))]"
    and "entry_ok (index_row t0 rest, concat (map packet_rows qs))"
proof -
  show "flush w = Inr (written w t0 rest (concat (map packet_rows qs)))"
    using h ok tb by (rule flush_holds)
  show "output_path (written w t0 rest (concat (map packet_rows qs)))
         = replay (output_path w) [(index_row t0 rest, concat (map packet_rows qs))]"
    by (simp add: output_path_written replay_single)
  from ts_column_concat_packet_rows[OF ok] tb
  show "entry_ok (index_row t0 rest, concat (map packet_rows qs))"
    by (intro entry_ok_index_row) simp
qed

lemma add_packet_ok:
  assumes h: "holds qs w" and ok: "list_all (packet_ok A B) qs" and p: "packet_ok A B p"
  shows "\<exists>w' qs' h'. add_packet w p = Inr w' \<and> holds qs' w' \<and> list_all (packet_ok A B) qs'
           \<and> output_path w' = replay (output_path w) h' \<and> list_all entry_ok h'
           \<and> concat (map snd h') @ concat (map packet_rows qs')
               = concat (map packet_rows qs) @ packet_rows p
           \<and> (if 200000 \<le> particle_counter w + length (data (scattering p))
               then qs' = [] \<and> length h' = 1 else qs' = qs @ [p] \<and> h' = [])"
proof -
  let ?w1 = "buffer_packet w p"
  have h1: "holds (qs @ [p]) ?w1" using h p by (rule holds_buffer_packet)
  have ok1: "list_all (packet_ok A B) (qs @ [p])" using ok p by simp
  have cnt1: "particle_counter ?w1 = particle_counter w + length (data (scattering p))"
    by (simp add: buffer_packet_def)
  have out1: "output_path ?w1 = output_path w" by (simp add: buffer_packet_def)
  show ?thesis
  proof (cases "200000 \<le> particle_counter w + length (data (scattering p))")
    case False
    then have "add_packet w p = Inr ?w1" by (simp add: add_packet_def cnt1)
    with h1 ok1 out1 False show ?thesis
      by (intro exI[of _ ?w1] exI[of _ "qs @ [p]"] exI[of _ "[]"]) simp
  next
    case True
    then have ap: "add_packet w p = flush ?w1" by (simp add: add_packet_def cnt1)
    from h1 have "length (concat (map timestamps (qs @ [p]))) = particle_counter ?w1"
      by (simp add: holds_def)
    moreover from True cnt1 have "0 < particle_counter ?w1" by arith
    ultimately have "concat (map timestamps (qs @ [p])) \<noteq> []" by (rule length_pos_nonempty)
    then obtain t0 rest where tb: "concat (map timestamps (qs @ [p])) = t0 # rest"
      by (cases "concat (map timestamps (qs @ [p]))") auto
    let ?df = "concat (map packet_rows (qs @ [p]))"
    note f = flush_holds_history[OF h1 ok1 tb]
    from ap f(1) have 1: "add_packet w p = Inr (written ?w1 t0 rest ?df)" by simp
    have 2: "holds [] (written ?w1 t0 rest ?df)" by (rule holds_written)
    from f(2) out1
    have 3: "output_path (written ?w1 t0 rest ?df) = replay (output_path w) [(index_row t0 rest, ?df)]"
      by simp
    from 1 2 3 f(3) True show ?thesis
      by (intro exI[of _ "written ?w1 t0 rest ?df"] exI[of _ "[]"]
            exI[of _ "[(index_row t0 rest, ?df)]"]) simp
  qed
qed

lemma add_packets_ok:
  assumes "holds qs w" and "list_all (packet_ok A B) qs" and "list_all (packet_ok A B) ps"
  shows "\<exists>w' qs' h'. add_packets w ps = Inr w' \<and> holds qs' w' \<and> list_all (packet_ok A B) qs'
           \<and> output_path w' = replay (output_path w) h' \<and> list_all entry_ok h'
           \<and> concat (map snd h') @ concat (map packet_rows qs')
               = concat (map packet_rows qs) @ concat (map packet_rows ps)"
  using assms
proof (induction ps arbitrary: w qs)
  case Nil
  then show ?case
    by (intro exI[of _ w] exI[of _ qs] exI[of _ "[]"]) simp
next
  case (Cons p ps)
  then have p: "packet_ok A B p" and ps: "list_all (packet_ok A B) ps" by simp_all
  from add_packet_ok[OF Cons.prems(1,2) p] obtain w1 qs1 h1 where
    a: "add_packet w p = Inr w1" and h1: "holds qs1 w1" and ok1: "list_all (packet_ok A B) qs1"
    and o1: "output_path w1 = replay (output_path w) h1" and e1: "list_all entry_ok h1"
    and r1: "concat (map snd h1) @ concat (map packet_rows qs1)
               = concat (map packet_rows qs) @ packet_rows p"
    by blast
  from Cons.IH[OF h1 ok1 ps] obtain w2 qs2 h2 where
    b: "add_packets w1 ps = Inr w2" and h2: "holds qs2 w2" and ok2: "list_all (packet_ok A B) qs2"
    and o2: "output_path w2 = replay (output_path w1) h2" and e2: "list_all entry_ok h2"
    and r2: "concat (map snd h2) @ concat (map packet_rows qs2)
               = concat (map packet_rows qs1) @ concat (map packet_rows ps)"
    by blast
  have c: "add_packets w (p # ps) = Inr w2" using a b by simp
  have o: "output_path w2 = replay (output_path w) (h1 @ h2)"
    using o1 o2 by (simp add: replay_append)
  have e: "list_all entry_ok (h1 @ h2)" using e1 e2 by simp
  have "concat (map snd (h1 @ h2)) @ concat (map packet_rows qs2)
        = concat (map snd h1) @ (concat (map snd h2) @ concat (map packet_rows qs2))"
    by simp
  also have "\<dots> = concat (map snd h1) @ concat (map packet_rows qs1) @ concat (map packet_rows ps)"
    by (simp only: r2)
  also have "\<dots> = (concat (map packet_rows qs) @ packet_rows p) @ concat (map packet_rows ps)"
    using r1 by simp
  finally have r: "concat (map snd (h1 @ h2)) @ concat (map packet_rows qs2)
        = concat (map packet_rows qs) @ concat (map packet_rows (p # ps))"
    by simp
  from c h2 ok2 o e r show ?case by blast
qed

text \<open>The write loop with its final flush returns, and the chunks hold the rows in order.\<close>

lemma cmd_write_ok:
  assumes "list_all (packet_ok A B) ps"
  shows "\<exists>w' h'. cmd_write st ps = Inr w' \<and> output_path w' = replay st h'
           \<and> list_all entry_ok h' \<and> concat (map snd h') = concat (map packet_rows ps)"
proof -
  have i: "holds [] (ChunkWriter_init st)" by (rule holds_init)
  have n: "list_all (packet_ok A B) []" by simp
  from add_packets_ok[OF i n assms] obtain w1 qs1 h1 where
    a: "add_packets (ChunkWriter_init st) ps = Inr w1" and h1: "holds qs1 w1"
    and ok1: "list_all (packet_ok A B) qs1"
    and o1: "output_path w1 = replay (output_path (ChunkWriter_init st)) h1"
    and e1: "list_all entry_ok h1"
    and r1: "concat (map snd h1) @ concat (map packet_rows qs1) = concat (map packet_rows ps)"
    by auto
  have o1': "output_path w1 = replay st h1" using o1 by (simp add: ChunkWriter_init_def)
  show ?thesis
  proof (cases "particle_counter w1 = 0")
    case True
    with a have "cmd_write st ps = Inr w1" by (simp add: cmd_write_def flush_zero)
    moreover have z: "concat (map packet_rows qs1) = []"
      using h1 ok1 True by (rule holds_counter_zero)
    from r1 have "concat (map snd h1) = concat (map packet_rows ps)"
      by (simp only: z append_Nil2)
    moreover note o1' e1
    ultimately show ?thesis by blast
  next
    case False
    then have "0 < particle_counter w1" by simp
    moreover from h1 have "length (concat (map timestamps qs1)) = particle_counter w1"
      by (simp add: holds_def)
    ultimately have "concat (map timestamps qs1) \<noteq> []" by (rule length_pos_nonempty[rotated])
    then obtain t0 rest where tb: "concat (map timestamps qs1) = t0 # rest"
      by (cases "concat (map timestamps qs1)") auto
    let ?df = "concat (map packet_rows qs1)"
    note f = flush_holds_history[OF h1 ok1 tb]
    from a f(1) have 1: "cmd_write st ps = Inr (written w1 t0 rest ?df)"
      by (simp add: cmd_write_def)
    from f(2) o1' have 2: "output_path (written w1 t0 rest ?df)
          = replay st (h1 @ [(index_row t0 rest, ?df)])"
      by (simp add: replay_append)
    from e1 f(3) have 3: "list_all entry_ok (h1 @ [(index_row t0 rest, ?df)])" by simp
    from r1 have 4: "concat (map snd (h1 @ [(index_row t0 rest, ?df)])) = concat (map packet_rows ps)"
      by simp
    from 1 2 3 4 show ?thesis by blast
  qed
qed

section \<open>The flush threshold and the index file\<close>

text \<open>
  C4. For every sequence of shape-consistent records appended to a fresh writer, the
  appends return; and when the counter reaches or exceeds 200000 in the next
  add\_packet, that call is the flush of the buffer with the record in it, it returns,
  one row has been appended to the index, the buffer is empty and the counter is 0.
\<close>

theorem flush_threshold:
  assumes "list_all (packet_ok A B) ps" and "packet_ok A B p"
  shows "\<exists>w. add_packets (ChunkWriter_init st) ps = Inr w \<and>
           (200000 \<le> particle_counter w + length (data (scattering p)) \<longrightarrow>
             (\<exists>w' e. add_packet w p = Inr w' \<and> flush (buffer_packet w p) = Inr w'
                \<and> particle_counter w' = 0 \<and> buffer_timestamps w' = []
                \<and> buffer_scattering w' = [] \<and> buffer_spectral w' = []
                \<and> index_rows (output_path w') = index_rows (output_path w) @ [e]))"
proof -
  have n: "list_all (packet_ok A B) []" by simp
  from add_packets_ok[OF holds_init n assms(1)] obtain w qs where
    a: "add_packets (ChunkWriter_init st) ps = Inr w" and h: "holds qs w"
    and ok: "list_all (packet_ok A B) qs"
    by blast
  have "\<exists>w' e. add_packet w p = Inr w' \<and> flush (buffer_packet w p) = Inr w'
                \<and> particle_counter w' = 0 \<and> buffer_timestamps w' = []
                \<and> buffer_scattering w' = [] \<and> buffer_spectral w' = []
                \<and> index_rows (output_path w') = index_rows (output_path w) @ [e]"
    if t: "200000 \<le> particle_counter w + length (data (scattering p))"
  proof -
    from add_packet_ok[OF h ok assms(2)] t obtain w' qs' h' where
      b: "add_packet w p = Inr w'" and h': "holds qs' w'"
      and o: "output_path w' = replay (output_path w) h'" and q: "qs' = []" and l: "length h' = 1"
      by auto
    from l obtain ec where "h' = [ec]" by (cases h') auto
    with o have 1: "index_rows (output_path w') = index_rows (output_path w) @ [fst ec]"
      by (simp add: index_rows_replay)
    from t b have 2: "flush (buffer_packet w p) = Inr w'"
      by (simp add: add_packet_def buffer_packet_def)
    from h' q have "particle_counter w' = 0" "buffer_timestamps w' = []"
      "buffer_scattering w' = []" "buffer_spectral w' = []"
      by (simp_all add: holds_def)
    with b 1 2 show ?thesis by blast
  qed
  with a show ?thesis by blast
qed

text \<open>
  C7 (as amended). The index file has the header \<^verbatim>\<open>filename,min_ts,max_ts\<close>, written
  only by the flush that finds no index file; every flush of a non-zero counter that
  returns appends exactly one data row, the row of its chunk, after the rows already in
  the file, and leaves the header and the earlier rows as they are.
\<close>

theorem index_file_format:
  assumes "flush w = Inr w'" and "particle_counter w \<noteq> 0"
  shows "\<exists>t0 rest. concat (buffer_timestamps w) = t0 # rest \<and>
           index_file (output_path w') =
             (case index_file (output_path w) of
                None \<Rightarrow> Some ([''filename'', ''min_ts'', ''max_ts''], [index_row t0 rest])
              | Some (h, es) \<Rightarrow> Some (h, es @ [index_row t0 rest]))"
  using assms
proof (rule flush_Inr_nonzero)
  fix t0 rest sa sc sb sp
  assume tb: "np_concatenate_1d (buffer_timestamps w) = Inr (t0 # rest)"
    and w': "w' = written w t0 rest (pd_concat_columns (t0 # rest) (data sc) (data sp))"
  from tb have c: "concat (buffer_timestamps w) = t0 # rest"
    by (simp add: np_concatenate_1d_def split: if_splits)
  have "index_file (output_path w') =
             (case index_file (output_path w) of
                None \<Rightarrow> Some ([''filename'', ''min_ts'', ''max_ts''], [index_row t0 rest])
              | Some (h, es) \<Rightarrow> Some (h, es @ [index_row t0 rest]))"
    unfolding w'
    by (cases "index_file (output_path w)")
       (auto simp: written_def to_csv_append_def to_parquet_def index_header_def)
  with c show ?thesis by blast
qed

section \<open>The range query\<close>

lemma read_chunks_present:
  assumes "\<forall>e\<in>set es. chunk_files st (filename e) \<noteq> None"
  shows "read_chunks st s t es
         = Inr (map (\<lambda>e. filter (time_mask s t) (the (chunk_files st (filename e)))) es)"
  using assms
proof (induction es)
  case Nil
  show ?case by simp
next
  case (Cons e es)
  then obtain df where "chunk_files st (filename e) = Some df" by auto
  with Cons show ?case by (simp add: read_parquet_def)
qed

lemma read_chunks_cong:
  assumes "\<forall>e\<in>set es. chunk_files st' (filename e) = chunk_files st (filename e)"
  shows "read_chunks st' s t es = read_chunks st s t es"
  using assms by (induction es) (simp_all add: read_parquet_def)

lemma time_mask_iff: "time_mask s t r \<longleftrightarrow> ts_0 r \<in> Some ` {s .. t}"
  by (cases "ts_0 r") (auto simp: time_mask_def)

lemma index_mask_eq: "index_mask s t = (\<lambda>e. s \<le> max_ts e \<and> min_ts e \<le> t)"
  by (auto simp: index_mask_def)

lemma time_mask_eq: "time_mask s t = (\<lambda>r. ts_0 r \<in> Some ` {s .. t})"
  by (rule ext) (rule time_mask_iff)

lemma cmd_read_present:
  assumes "read_csv st = Inr index_df"
    and "\<forall>e\<in>set (filter (index_mask s t) index_df). chunk_files st (filename e) \<noteq> None"
  shows "cmd_read st s t =
           Inr (if filter (index_mask s t) index_df = [] then NothingFound
                else Found (concat (map (\<lambda>e. filter (time_mask s t) (the (chunk_files st (filename e))))
                                     (filter (index_mask s t) index_df))))"
  using assms(1) read_chunks_present[OF assms(2)]
  by (simp add: cmd_read_def)

text \<open>
  C2. When the index loads and the chunk files of the selected index rows exist, the
  query selects exactly the rows of the index with \<open>max_ts \<ge> start_ts\<close> and
  \<open>min_ts \<le> stop_ts\<close>, keeps of each selected chunk exactly the rows whose \<^verbatim>\<open>ts_0\<close> lies
  in the closed window, and concatenates them in index order; no other chunk file is
  read: a directory that differs in other files only gives the same answer.
\<close>

theorem range_correctness:
  assumes "read_csv st = Inr index_df"
    and "\<forall>e\<in>set index_df. start_ts \<le> max_ts e \<and> min_ts e \<le> stop_ts
           \<longrightarrow> chunk_files st (filename e) \<noteq> None"
  shows "cmd_read st start_ts stop_ts =
           Inr (if filter (\<lambda>e. start_ts \<le> max_ts e \<and> min_ts e \<le> stop_ts) index_df = []
                then NothingFound
                else Found (concat (map
                  (\<lambda>e. filter (\<lambda>r. ts_0 r \<in> Some ` {start_ts .. stop_ts})
                         (the (chunk_files st (filename e))))
                  (filter (\<lambda>e. start_ts \<le> max_ts e \<and> min_ts e \<le> stop_ts) index_df))))
         \<and> (\<forall>st'. index_file st' = index_file st
                \<and> (\<forall>e\<in>set index_df. start_ts \<le> max_ts e \<and> min_ts e \<le> stop_ts
                      \<longrightarrow> chunk_files st' (filename e) = chunk_files st (filename e))
                \<longrightarrow> cmd_read st' start_ts stop_ts = cmd_read st start_ts stop_ts)"
proof (intro conjI allI impI)
  from assms(2)
  have p: "\<forall>e\<in>set (filter (index_mask start_ts stop_ts) index_df). chunk_files st (filename e) \<noteq> None"
    by (simp add: index_mask_def)
  from cmd_read_present[OF assms(1) p]
  show "cmd_read st start_ts stop_ts =
           Inr (if filter (\<lambda>e. start_ts \<le> max_ts e \<and> min_ts e \<le> stop_ts) index_df = []
                then NothingFound
                else Found (concat (map
                  (\<lambda>e. filter (\<lambda>r. ts_0 r \<in> Some ` {start_ts .. stop_ts})
                         (the (chunk_files st (filename e))))
                  (filter (\<lambda>e. start_ts \<le> max_ts e \<and> min_ts e \<le> stop_ts) index_df))))"
    by (simp only: index_mask_eq time_mask_eq)
next
  fix st' :: storage
  assume a: "index_file st' = index_file st
                \<and> (\<forall>e\<in>set index_df. start_ts \<le> max_ts e \<and> min_ts e \<le> stop_ts
                      \<longrightarrow> chunk_files st' (filename e) = chunk_files st (filename e))"
  then have r: "read_csv st' = Inr index_df" using assms(1) by (simp add: read_csv_def)
  from a have "\<forall>e\<in>set (filter (index_mask start_ts stop_ts) index_df).
                 chunk_files st' (filename e) = chunk_files st (filename e)"
    by (simp add: index_mask_def)
  from read_chunks_cong[OF this] r assms(1)
  show "cmd_read st' start_ts stop_ts = cmd_read st start_ts stop_ts"
    by (simp add: cmd_read_def)
qed


text \<open>
  Before the first flush there is no index file, and the query fails on reading it,
  whatever the window is.
\<close>

lemma cmd_read_no_index: "index_file st = None \<Longrightarrow> cmd_read st s t = Inl FileNotFoundError"
  by (simp add: cmd_read_def read_csv_def)

section \<open>The tail of the stream\<close>

lemma add_packets_tail:
  assumes "particle_counter w + sum_list (map (\<lambda>p. length (data (scattering p))) ps) < 200000"
  shows "\<exists>w'. add_packets w ps = Inr w' \<and> output_path w' = output_path w
           \<and> buffer_timestamps w' = buffer_timestamps w @ map timestamps ps
           \<and> buffer_scattering w' = buffer_scattering w @ map scattering ps
           \<and> buffer_spectral w' = buffer_spectral w @ map spectral ps"
  using assms
proof (induction ps arbitrary: w)
  case Nil
  show ?case by simp
next
  case (Cons p ps)
  let ?w1 = "buffer_packet w p"
  from Cons.prems have a: "add_packet w p = Inr ?w1"
    by (simp add: add_packet_def buffer_packet_def)
  from Cons.prems
  have "particle_counter ?w1 + sum_list (map (\<lambda>p. length (data (scattering p))) ps) < 200000"
    by (simp add: buffer_packet_def)
  from Cons.IH[OF this] obtain w' where "add_packets ?w1 ps = Inr w'"
    and "output_path w' = output_path ?w1"
    and "buffer_timestamps w' = buffer_timestamps ?w1 @ map timestamps ps"
    and "buffer_scattering w' = buffer_scattering ?w1 @ map scattering ps"
    and "buffer_spectral w' = buffer_spectral ?w1 @ map spectral ps"
    by blast
  with a show ?case by (simp add: buffer_packet_def)
qed

text \<open>
  C5. Records appended while the counter stays below the threshold, as those after the
  last automatic flush are, leave the directory as it is: no chunk file is written and
  no index row is appended, the records are in the buffer only. A query of a window
  that overlaps no row of the index then takes the nothing-found exit, whatever the
  tail records' timestamps are.
\<close>

theorem tail_durability:
  assumes "particle_counter w + sum_list (map (\<lambda>p. length (data (scattering p))) ps) < 200000"
    and "read_csv (output_path w) = Inr index_df"
    and "\<forall>e\<in>set index_df. \<not> (start_ts \<le> max_ts e \<and> min_ts e \<le> stop_ts)"
  shows "\<exists>w'. add_packets w ps = Inr w'
           \<and> index_file (output_path w') = index_file (output_path w)
           \<and> chunk_files (output_path w') = chunk_files (output_path w)
           \<and> buffer_timestamps w' = buffer_timestamps w @ map timestamps ps
           \<and> cmd_read (output_path w') start_ts stop_ts = Inr NothingFound"
proof -
  from add_packets_tail[OF assms(1)] obtain w' where a: "add_packets w ps = Inr w'"
    and o: "output_path w' = output_path w"
    and b: "buffer_timestamps w' = buffer_timestamps w @ map timestamps ps"
    by blast
  from assms(3) have "filter (index_mask start_ts stop_ts) index_df = []"
    by (simp add: index_mask_def filter_empty_conv)
  with assms(2) have "cmd_read (output_path w) start_ts stop_ts = Inr NothingFound"
    by (simp add: cmd_read_def)
  with a o b show ?thesis by simp
qed

section \<open>Concrete runs\<close>

lemma fold_min_replicate: "fold min (replicate n x) (x::real) = x"
  by (induction n) simp_all

lemma fold_max_replicate: "fold max (replicate n x) (x::real) = x"
  by (induction n) simp_all

lemma ex_packet_ok: "packet_ok [2, 2] [3] (ex_packet tss v)"
  by (simp add: packet_ok_def ex_packet_def)

lemma packet_rows_ex_packet: "packet_rows (ex_packet tss v) = map (\<lambda>t. ex_row t v) tss"
  by (induction tss) (simp_all add: packet_rows_def rows_of_def ex_packet_def ex_row_def)

lemma ex_flush: "flush ex_writer = Inr ex_flushed"
proof -
  have h: "holds [ex_packet [1, 2] 7] ex_writer"
    unfolding ex_writer_def using holds_buffer_packet[OF holds_init ex_packet_ok] by simp
  have ok: "list_all (packet_ok [2, 2] [3]) [ex_packet [1, 2] 7]"
    by (simp add: ex_packet_ok)
  have tb: "concat (map timestamps [ex_packet [1, 2] 7]) = 1 # [2]"
    by (simp add: ex_packet_def)
  from flush_holds[OF h ok tb] show ?thesis
    by (simp add: ex_flushed_def packet_rows_ex_packet)
qed

lemma ex_writer_counter: "particle_counter ex_writer = 2"
  by (simp add: ex_writer_def buffer_packet_def ChunkWriter_init_def ex_packet_def)

lemma ex_big_auto: "add_packet (ChunkWriter_init empty_dir) ex_big = Inr ex_auto"
proof -
  let ?w1 = "buffer_packet (ChunkWriter_init empty_dir) ex_big"
  have h: "holds [ex_big] ?w1"
    using holds_buffer_packet[OF holds_init ex_packet_ok] by (simp add: ex_big_def)
  have ok: "list_all (packet_ok [2, 2] [3]) [ex_big]"
    by (simp add: ex_packet_ok ex_big_def)
  have tb: "concat (map timestamps [ex_big]) = 1 # replicate 199999 1"
    by (simp add: ex_packet_def ex_big_def)
  have c: "particle_counter ?w1 = 200000"
    by (simp add: buffer_packet_def ChunkWriter_init_def ex_big_def ex_packet_def)
  from c have "add_packet (ChunkWriter_init empty_dir) ex_big = flush ?w1"
    by (simp add: add_packet_def)
  with flush_holds[OF h ok tb] show ?thesis
    by (simp add: ex_auto_def ex_big_def packet_rows_ex_packet)
qed

lemma index_row_ones: "index_row 1 (replicate n 1) = \<lparr>filename = Parquet 1, min_ts = 1, max_ts = 1\<rparr>"
  unfolding index_row_def by (simp only: fold_min_replicate fold_max_replicate)

lemma read_csv_ex_auto:
  "read_csv (output_path ex_auto) = Inr [\<lparr>filename = Parquet 1, min_ts = 1, max_ts = 1\<rparr>]"
  by (simp add: ex_auto_def output_path_written read_csv_write_chunk_new buffer_packet_def
      ChunkWriter_init_def empty_dir_def index_row_ones)

lemma read_csv_ex_dir:
  "read_csv ex_dir = Inr [\<lparr>filename = Parquet 1, min_ts = 1, max_ts = 2\<rparr>,
                          \<lparr>filename = Parquet 5, min_ts = 5, max_ts = 6\<rparr>]"
  by (simp add: read_csv_def ex_dir_def index_header_def)

lemma Some_mem_image [simp]: "Some x \<in> Some ` S \<longleftrightarrow> x \<in> S"
  by auto

theorem flush_threshold_witness:
  "add_packets (ChunkWriter_init empty_dir) [] = Inr (ChunkWriter_init empty_dir)
   \<and> (200000::nat) \<le> particle_counter (ChunkWriter_init empty_dir) + length (data (scattering ex_big))
   \<and> (\<exists>w' e. add_packet (ChunkWriter_init empty_dir) ex_big = Inr w'
         \<and> particle_counter w' = 0 \<and> buffer_timestamps w' = []
         \<and> index_rows (output_path w') = [e])"
proof -
  have ok: "packet_ok [2, 2] [3] ex_big" by (simp add: ex_big_def ex_packet_ok)
  have n: "list_all (packet_ok [2, 2] [3]) []" by simp
  have t: "(200000::nat) \<le> particle_counter (ChunkWriter_init empty_dir)
             + length (data (scattering ex_big))"
    by (simp add: ChunkWriter_init_def ex_big_def ex_packet_def)
  from flush_threshold[OF n ok, of empty_dir] t
  have "\<exists>w' e. add_packet (ChunkWriter_init empty_dir) ex_big = Inr w'
         \<and> particle_counter w' = 0 \<and> buffer_timestamps w' = []
         \<and> index_rows (output_path w') = index_rows (output_path (ChunkWriter_init empty_dir)) @ [e]"
    by auto
  then have "\<exists>w' e. add_packet (ChunkWriter_init empty_dir) ex_big = Inr w'
         \<and> particle_counter w' = 0 \<and> buffer_timestamps w' = []
         \<and> index_rows (output_path w') = [e]"
    by (simp add: ChunkWriter_init_def empty_dir_def index_rows_def)
  with t show ?thesis by simp
qed

theorem index_file_format_witness:
  "flush ex_writer = Inr ex_flushed \<and> particle_counter ex_writer \<noteq> 0
   \<and> index_file (output_path ex_writer) = None
   \<and> index_file (output_path ex_flushed)
       = Some ([''filename'', ''min_ts'', ''max_ts''],
               [\<lparr>filename = Parquet 1, min_ts = 1, max_ts = 2\<rparr>])"
proof -
  have c: "particle_counter ex_writer \<noteq> 0" by (simp add: ex_writer_counter)
  have b: "concat (buffer_timestamps ex_writer) = [1, 2]"
    by (simp add: ex_writer_def buffer_packet_def ChunkWriter_init_def ex_packet_def)
  have i: "index_file (output_path ex_writer) = None"
    by (simp add: ex_writer_def buffer_packet_def ChunkWriter_init_def empty_dir_def)
  from index_file_format[OF ex_flush c] obtain t0 rest where
    "concat (buffer_timestamps ex_writer) = t0 # rest"
    and "index_file (output_path ex_flushed) =
             (case index_file (output_path ex_writer) of
                None \<Rightarrow> Some ([''filename'', ''min_ts'', ''max_ts''], [index_row t0 rest])
              | Some (h, es) \<Rightarrow> Some (h, es @ [index_row t0 rest]))"
    by blast
  with b i have "index_file (output_path ex_flushed)
       = Some ([''filename'', ''min_ts'', ''max_ts''], [index_row 1 [2]])"
    by simp
  with c i ex_flush show ?thesis by (simp add: index_row_def)
qed

text \<open>
  The first flush into an empty directory creates the index file with the header
  \<^verbatim>\<open>filename,min_ts,max_ts\<close>; its first column is not named \<^verbatim>\<open>chunk_id\<close>.
\<close>

theorem index_header_counterexample:
  "flush ex_writer = Inr ex_flushed
   \<and> index_file (output_path ex_flushed)
       = Some ([''filename'', ''min_ts'', ''max_ts''],
               [\<lparr>filename = Parquet 1, min_ts = 1, max_ts = 2\<rparr>])
   \<and> [''filename'', ''min_ts'', ''max_ts''] \<noteq> [''chunk_id'', ''min_ts'', ''max_ts'']"
proof -
  have "index_file (output_path ex_flushed)
       = Some ([''filename'', ''min_ts'', ''max_ts''],
               [\<lparr>filename = Parquet 1, min_ts = 1, max_ts = 2\<rparr>])"
    by (simp add: ex_flushed_def written_def to_csv_append_def to_parquet_def
      ex_writer_def buffer_packet_def ChunkWriter_init_def empty_dir_def index_header_def
      index_row_def)
  with ex_flush show ?thesis by simp
qed

theorem range_correctness_witness:
  "read_csv ex_dir = Inr [\<lparr>filename = Parquet 1, min_ts = 1, max_ts = 2\<rparr>,
                          \<lparr>filename = Parquet 5, min_ts = 5, max_ts = 6\<rparr>]
   \<and> cmd_read ex_dir 2 3 = Inr (Found [ex_row 2 7])
   \<and> cmd_read (ex_dir\<lparr>chunk_files := [Parquet 1 \<mapsto> [ex_row 1 7, ex_row 2 7]]\<rparr>) 2 3
       = cmd_read ex_dir 2 3"
proof -
  note r = read_csv_ex_dir
  have p: "\<forall>e\<in>set [\<lparr>filename = Parquet 1, min_ts = 1, max_ts = 2\<rparr>,
                      \<lparr>filename = Parquet 5, min_ts = 5, max_ts = 6\<rparr>].
             (2::real) \<le> max_ts e \<and> min_ts e \<le> 3 \<longrightarrow> chunk_files ex_dir (filename e) \<noteq> None"
    by (simp add: ex_dir_def)
  note rc = range_correctness[OF r p]
  from rc have 1: "cmd_read ex_dir 2 3 = Inr (Found [ex_row 2 7])"
    by (simp add: ex_dir_def ex_row_def)
  from rc have "index_file (ex_dir\<lparr>chunk_files := [Parquet 1 \<mapsto> [ex_row 1 7, ex_row 2 7]]\<rparr>)
                  = index_file ex_dir
                \<and> (\<forall>e\<in>set [\<lparr>filename = Parquet 1, min_ts = 1, max_ts = 2\<rparr>,
                      \<lparr>filename = Parquet 5, min_ts = 5, max_ts = 6\<rparr>].
                      (2::real) \<le> max_ts e \<and> min_ts e \<le> 3
                      \<longrightarrow> chunk_files (ex_dir\<lparr>chunk_files := [Parquet 1 \<mapsto> [ex_row 1 7, ex_row 2 7]]\<rparr>)
                            (filename e) = chunk_files ex_dir (filename e))
                \<longrightarrow> cmd_read (ex_dir\<lparr>chunk_files := [Parquet 1 \<mapsto> [ex_row 1 7, ex_row 2 7]]\<rparr>) 2 3
                    = cmd_read ex_dir 2 3"
    by blast
  then have 2: "cmd_read (ex_dir\<lparr>chunk_files := [Parquet 1 \<mapsto> [ex_row 1 7, ex_row 2 7]]\<rparr>) 2 3
                    = cmd_read ex_dir 2 3"
    by (simp add: ex_dir_def)
  from r 1 2 show ?thesis by simp
qed


theorem tail_durability_witness:
  "add_packet (ChunkWriter_init empty_dir) ex_big = Inr ex_auto
   \<and> read_csv (output_path ex_auto) = Inr [\<lparr>filename = Parquet 1, min_ts = 1, max_ts = 1\<rparr>]
   \<and> (\<exists>w'. add_packets ex_auto [ex_packet [8, 9] 3] = Inr w'
         \<and> index_file (output_path w') = index_file (output_path ex_auto)
         \<and> chunk_files (output_path w') = chunk_files (output_path ex_auto)
         \<and> buffer_timestamps w' = [[8, 9]]
         \<and> cmd_read (output_path w') 8 9 = Inr NothingFound)"
proof -
  have c: "particle_counter ex_auto
           + sum_list (map (\<lambda>p. length (data (scattering p))) [ex_packet [8, 9] 3]) < 200000"
    by (simp add: ex_auto_def written_def ex_packet_def)
  have p: "\<forall>e\<in>set [\<lparr>filename = Parquet 1, min_ts = 1, max_ts = 1\<rparr>].
             \<not> ((8::real) \<le> max_ts e \<and> min_ts e \<le> 9)"
    by simp
  from tail_durability[OF c read_csv_ex_auto p]
  have "\<exists>w'. add_packets ex_auto [ex_packet [8, 9] 3] = Inr w'
         \<and> index_file (output_path w') = index_file (output_path ex_auto)
         \<and> chunk_files (output_path w') = chunk_files (output_path ex_auto)
         \<and> buffer_timestamps w' = [[8, 9]]
         \<and> cmd_read (output_path w') 8 9 = Inr NothingFound"
    by (simp add: ex_auto_def written_def ex_packet_def)
  with ex_big_auto read_csv_ex_auto show ?thesis by simp
qed

section \<open>Index rows and the chunks they name\<close>

lemma written_eq_init:
  "written w t0 rest df = ChunkWriter_init (write_chunk (output_path w) (index_row t0 rest, df))"
  by (simp add: written_def ChunkWriter_init_def write_chunk_def index_row_def)

lemma flush_history:
  assumes "flush w = Inr w'"
  shows "\<exists>h. output_path w' = replay (output_path w) h \<and> list_all entry_ok h"
proof (cases "particle_counter w = 0")
  case True
  with assms have "w' = w" by (simp add: flush_zero)
  then have "output_path w' = replay (output_path w) [] \<and> list_all entry_ok []" by simp
  then show ?thesis by blast
next
  case False
  from assms False show ?thesis
  proof (rule flush_Inr_nonzero)
    fix t0 rest sa sc sb sp
    assume w': "w' = written w t0 rest (pd_concat_columns (t0 # rest) (data sc) (data sp))"
    let ?df = "pd_concat_columns (t0 # rest) (data sc) (data sp)"
    have "output_path w' = replay (output_path w) [(index_row t0 rest, ?df)]"
      by (simp add: w' output_path_written replay_single)
    moreover have "list_all entry_ok [(index_row t0 rest, ?df)]"
      by (simp add: entry_ok_index_row ts_column_pd_concat_columns)
    ultimately show ?thesis by blast
  qed
qed

lemma add_packet_history:
  assumes "add_packet w p = Inr w'"
  shows "\<exists>h. output_path w' = replay (output_path w) h \<and> list_all entry_ok h"
proof (cases "200000 \<le> particle_counter (buffer_packet w p)")
  case True
  with assms have "flush (buffer_packet w p) = Inr w'" by (simp add: add_packet_def)
  from flush_history[OF this] show ?thesis by (simp add: buffer_packet_def)
next
  case False
  with assms have "w' = buffer_packet w p" by (simp add: add_packet_def)
  then have "output_path w' = replay (output_path w) [] \<and> list_all entry_ok []"
    by (simp add: buffer_packet_def)
  then show ?thesis by blast
qed

lemma run_history:
  "run w cs = Inr w' \<Longrightarrow> \<exists>h. output_path w' = replay (output_path w) h \<and> list_all entry_ok h"
proof (induction w cs rule: run.induct)
  case (1 w)
  then have "output_path w' = replay (output_path w) [] \<and> list_all entry_ok []" by simp
  then show ?case by blast
next
  case (2 w p cs)
  from 2(2) obtain w1 where a: "add_packet w p = Inr w1" and r: "run w1 cs = Inr w'"
    unfolding run.simps bind_err_eq_Inr by blast
  from add_packet_history[OF a] obtain h1 where
    h1: "output_path w1 = replay (output_path w) h1" "list_all entry_ok h1" by blast
  from "2.IH" r obtain h2 where
    h2: "output_path w' = replay (output_path w1) h2" "list_all entry_ok h2" by blast
  from h1 h2 have "output_path w' = replay (output_path w) (h1 @ h2) \<and> list_all entry_ok (h1 @ h2)"
    by (simp add: replay_append)
  then show ?case by blast
next
  case (3 w cs)
  from 3(2) obtain w1 where a: "flush w = Inr w1" and r: "run w1 cs = Inr w'"
    unfolding run.simps bind_err_eq_Inr by blast
  from flush_history[OF a] obtain h1 where
    h1: "output_path w1 = replay (output_path w) h1" "list_all entry_ok h1" by blast
  from "3.IH" r obtain h2 where
    h2: "output_path w' = replay (output_path w1) h2" "list_all entry_ok h2" by blast
  from h1 h2 have "output_path w' = replay (output_path w) (h1 @ h2) \<and> list_all entry_ok (h1 @ h2)"
    by (simp add: replay_append)
  then show ?case by blast
next
  case (4 w cs)
  from 4(2) have "run (ChunkWriter_init (output_path w)) cs = Inr w'" by simp
  from "4.IH"[OF this] show ?case by (simp add: ChunkWriter_init_def)
qed

lemma entry_ok_min_max:
  assumes "entry_ok (e, df)"
  shows "ts_column df \<noteq> [] \<and> min_ts e = Min (set (ts_column df))
         \<and> max_ts e = Max (set (ts_column df)) \<and> min_ts e \<le> max_ts e"
proof -
  from assms obtain t0 rest where c: "ts_column df = t0 # rest" and e: "e = index_row t0 rest"
    by (cases "ts_column df") (auto simp: entry_ok_def)
  have mn: "min_ts e = Min (set (t0 # rest))"
    unfolding e index_row_def by (simp only: Min.set_eq_fold index_entry.simps)
  have mx: "max_ts e = Max (set (t0 # rest))"
    unfolding e index_row_def by (simp only: Max.set_eq_fold index_entry.simps)
  have "Min (set (t0 # rest)) \<le> Max (set (t0 # rest))"
    by (intro Min_le Max_in) simp_all
  with c mn mx show ?thesis by simp
qed

text \<open>
  C6 (as amended). In every directory reached from the empty one by add\_packet,
  flush and re-opening, every index row has \<open>min_ts \<le> max_ts\<close>; and every index row
  whose file name is not named again by a later row names an existing chunk file whose
  \<^verbatim>\<open>ts_0\<close> column is not empty and has \<open>min_ts\<close> and \<open>max_ts\<close> as its true minimum
  and maximum.
\<close>

theorem index_chunk_consistency:
  assumes "run (ChunkWriter_init empty_dir) cs = Inr w"
  shows "(\<forall>e\<in>set (index_rows (output_path w)). min_ts e \<le> max_ts e)
       \<and> (\<forall>es1 e es2. index_rows (output_path w) = es1 @ e # es2
             \<and> filename e \<notin> filename ` set es2
           \<longrightarrow> (\<exists>df. chunk_files (output_path w) (filename e) = Some df
                  \<and> ts_column df \<noteq> []
                  \<and> min_ts e = Min (set (ts_column df))
                  \<and> max_ts e = Max (set (ts_column df))))"
proof -
  from run_history[OF assms] obtain h where
    o: "output_path w = replay empty_dir h" and ok: "list_all entry_ok h"
    by (auto simp: ChunkWriter_init_def)
  have "index_rows empty_dir = []" by (simp add: index_rows_def empty_dir_def)
  then have ix: "index_rows (output_path w) = map fst h"
    by (simp only: o index_rows_replay append_Nil)
  show ?thesis
  proof (intro conjI ballI allI impI)
    fix e assume "e \<in> set (index_rows (output_path w))"
    with ix obtain df where "(e, df) \<in> set h" by auto
    with ok have "entry_ok (e, df)" by (simp add: list_all_iff)
    from entry_ok_min_max[OF this] show "min_ts e \<le> max_ts e" by simp
  next
    fix es1 e es2
    assume a: "index_rows (output_path w) = es1 @ e # es2 \<and> filename e \<notin> filename ` set es2"
    with ix have "map fst h = es1 @ e # es2" by simp
    then obtain h1 ec h2 where h: "h = h1 @ ec # h2" and "map fst h1 = es1"
      and e: "fst ec = e" and es2: "map fst h2 = es2"
      by (auto simp: map_eq_append_conv map_eq_Cons_conv)
    from a es2 have "filename (fst ec) \<notin> set (map (\<lambda>ec. filename (fst ec)) h2)"
      using e by force
    from chunk_files_replay_last[OF this]
    have f: "chunk_files (output_path w) (filename e) = Some (snd ec)"
      by (simp add: o h e)
    from ok h have "entry_ok ec" by simp
    with e have "entry_ok (e, snd ec)" by (cases ec) simp
    from entry_ok_min_max[OF this] f
    show "\<exists>df. chunk_files (output_path w) (filename e) = Some df
                  \<and> ts_column df \<noteq> []
                  \<and> min_ts e = Min (set (ts_column df))
                  \<and> max_ts e = Max (set (ts_column df))"
      by blast
  qed
qed

text \<open>Two records, each flushed on its own by an explicit flush.\<close>

lemma run_add_flush:
  assumes ok: "packet_ok A B p" and tb: "timestamps p = t0 # rest"
    and small: "length (timestamps p) < 200000"
  shows "run (ChunkWriter_init st) (AddPacket p # Flush # cs)
         = run (ChunkWriter_init (write_chunk st (index_row t0 rest, packet_rows p))) cs"
proof -
  let ?w0 = "ChunkWriter_init st"
  let ?w1 = "buffer_packet ?w0 p"
  from ok small have "particle_counter ?w1 < 200000"
    by (simp add: buffer_packet_def ChunkWriter_init_def packet_ok_def)
  then have a: "add_packet ?w0 p = Inr ?w1" by (simp add: add_packet_def)
  have h: "holds ([] @ [p]) ?w1" using holds_init ok by (rule holds_buffer_packet)
  have l: "list_all (packet_ok A B) ([] @ [p])" using ok by simp
  have c: "concat (map timestamps ([] @ [p])) = t0 # rest" using tb by simp
  from flush_holds[OF h l c]
  have f: "flush ?w1 = Inr (ChunkWriter_init (write_chunk st (index_row t0 rest, packet_rows p)))"
    by (simp add: written_eq_init buffer_packet_def ChunkWriter_init_def)
  from a f show ?thesis by simp
qed

lemma ex_run_collided: "run (ChunkWriter_init empty_dir) ex_calls = Inr ex_collided"
proof -
  have t1: "timestamps (ex_packet [5, 1, 9] 7) = 5 # [1, 9]" by (simp add: ex_packet_def)
  have s1: "length (timestamps (ex_packet [5, 1, 9] 7)) < 200000" by (simp add: ex_packet_def)
  have t2: "timestamps (ex_packet [5, 7] 8) = 5 # [7]" by (simp add: ex_packet_def)
  have s2: "length (timestamps (ex_packet [5, 7] 8)) < 200000" by (simp add: ex_packet_def)
  have "run (ChunkWriter_init empty_dir) ex_calls
        = run (ChunkWriter_init
            (write_chunk empty_dir (index_row 5 [1, 9], packet_rows (ex_packet [5, 1, 9] 7))))
            [AddPacket (ex_packet [5, 7] 8), Flush]"
    unfolding ex_calls_def by (rule run_add_flush[OF ex_packet_ok t1 s1])
  also have "\<dots> = run (ChunkWriter_init (write_chunk
            (write_chunk empty_dir (index_row 5 [1, 9], packet_rows (ex_packet [5, 1, 9] 7)))
            (index_row 5 [7], packet_rows (ex_packet [5, 7] 8)))) []"
    by (rule run_add_flush[OF ex_packet_ok t2 s2])
  finally have "run (ChunkWriter_init empty_dir) ex_calls
        = Inr (ChunkWriter_init (write_chunk
            (write_chunk empty_dir (index_row 5 [1, 9], packet_rows (ex_packet [5, 1, 9] 7)))
            (index_row 5 [7], packet_rows (ex_packet [5, 7] 8))))"
    by simp
  also have "write_chunk
            (write_chunk empty_dir (index_row 5 [1, 9], packet_rows (ex_packet [5, 1, 9] 7)))
            (index_row 5 [7], packet_rows (ex_packet [5, 7] 8))
          = output_path ex_collided"
    by (simp add: ex_collided_def ChunkWriter_init_def write_chunk_def to_csv_append_def
        to_parquet_def empty_dir_def index_header_def index_row_def packet_rows_ex_packet)
  finally show ?thesis by (simp add: ex_collided_def ChunkWriter_init_def)
qed

lemma index_rows_ex_collided:
  "index_rows (output_path ex_collided)
   = [\<lparr>filename = Parquet 5, min_ts = 1, max_ts = 9\<rparr>,
      \<lparr>filename = Parquet 5, min_ts = 5, max_ts = 7\<rparr>]"
  by (simp add: ex_collided_def ChunkWriter_init_def index_rows_def)

lemma ts_column_ex_rows: "ts_column (map (\<lambda>t. ex_row t v) tss) = tss"
  by (induction tss) (simp_all add: ts_column_def List.map_filter_simps ex_row_def)

theorem index_chunk_consistency_witness:
  "run (ChunkWriter_init empty_dir) ex_calls = Inr ex_collided
   \<and> index_rows (output_path ex_collided)
     = [\<lparr>filename = Parquet 5, min_ts = 1, max_ts = 9\<rparr>,
        \<lparr>filename = Parquet 5, min_ts = 5, max_ts = 7\<rparr>]
   \<and> (1::real) \<le> 9 \<and> (5::real) \<le> 7
   \<and> (\<exists>df. chunk_files (output_path ex_collided) (Parquet 5) = Some df \<and> ts_column df \<noteq> []
         \<and> 5 = Min (set (ts_column df)) \<and> 7 = Max (set (ts_column df)))"
proof -
  note c = index_chunk_consistency[OF ex_run_collided]
  have pre: "index_rows (output_path ex_collided)
        = [\<lparr>filename = Parquet 5, min_ts = 1, max_ts = 9\<rparr>]
          @ \<lparr>filename = Parquet 5, min_ts = 5, max_ts = 7\<rparr> # []
       \<and> filename \<lparr>filename = Parquet 5, min_ts = 5, max_ts = 7\<rparr> \<notin> filename ` set []"
    by (simp add: index_rows_ex_collided)
  from c[THEN conjunct2, rule_format, OF pre]
  have "\<exists>df. chunk_files (output_path ex_collided)
                   (filename \<lparr>filename = Parquet 5, min_ts = 5, max_ts = 7\<rparr>) = Some df
              \<and> ts_column df \<noteq> []
              \<and> min_ts \<lparr>filename = Parquet 5, min_ts = 5, max_ts = 7\<rparr> = Min (set (ts_column df))
              \<and> max_ts \<lparr>filename = Parquet 5, min_ts = 5, max_ts = 7\<rparr> = Max (set (ts_column df))" .
  then have "\<exists>df. chunk_files (output_path ex_collided) (Parquet 5) = Some df \<and> ts_column df \<noteq> []
         \<and> 5 = Min (set (ts_column df)) \<and> 7 = Max (set (ts_column df))"
    by simp
  with ex_run_collided index_rows_ex_collided show ?thesis by simp
qed

text \<open>
  After two flushes whose buffers both begin with timestamp 5, the first index row still
  records the range 1 to 9 of the chunk that was overwritten, while the file it names
  holds the timestamps 5 and 7 only.
\<close>

theorem index_chunk_consistency_counterexample:
  "run (ChunkWriter_init empty_dir) ex_calls = Inr ex_collided
   \<and> index_rows (output_path ex_collided)
     = [\<lparr>filename = Parquet 5, min_ts = 1, max_ts = 9\<rparr>,
        \<lparr>filename = Parquet 5, min_ts = 5, max_ts = 7\<rparr>]
   \<and> chunk_files (output_path ex_collided) (Parquet 5) = Some [ex_row 5 8, ex_row 7 8]
   \<and> ts_column [ex_row 5 8, ex_row 7 8] = [5, 7]
   \<and> min_ts \<lparr>filename = Parquet 5, min_ts = 1, max_ts = 9\<rparr> \<noteq> Min (set [5, 7])
   \<and> max_ts \<lparr>filename = Parquet 5, min_ts = 1, max_ts = 9\<rparr> \<noteq> Max (set [5, 7])"
proof -
  have "chunk_files (output_path ex_collided) (Parquet 5) = Some [ex_row 5 8, ex_row 7 8]"
    by (simp add: ex_collided_def ChunkWriter_init_def)
  moreover have "ts_column [ex_row 5 8, ex_row 7 8] = [5, 7]"
    using ts_column_ex_rows[of 8 "[5, 7]"] by simp
  moreover have "Min (set [5, 7 :: real]) = 5" by simp
  moreover have "Max (set [5, 7 :: real]) = 7" by simp
  ultimately show ?thesis
    using ex_run_collided index_rows_ex_collided by simp
qed

section \<open>Two flushes with the same first timestamp\<close>

text \<open>
  C10. Take two shape-consistent records below the threshold whose timestamps begin
  with the same value, each followed by an explicit flush on the empty directory. The
  first flush writes the first record's rows to the file named after that timestamp;
  the second flush overwrites that file with the second record's rows and appends a
  second index row with the same file name. A query whose window overlaps both recorded
  ranges reads the file once per index row and returns its matching rows twice.
\<close>

theorem collision_duplication:
  assumes "packet_ok A B p1" and "packet_ok A B p2"
    and "timestamps p1 = t0 # r1" and "timestamps p2 = t0 # r2"
    and "length (timestamps p1) < 200000" and "length (timestamps p2) < 200000"
    and "start_ts \<le> max_ts (index_row t0 r1) \<and> min_ts (index_row t0 r1) \<le> stop_ts"
    and "start_ts \<le> max_ts (index_row t0 r2) \<and> min_ts (index_row t0 r2) \<le> stop_ts"
  shows "\<exists>w1 w2. run (ChunkWriter_init empty_dir) [AddPacket p1, Flush] = Inr w1
           \<and> chunk_files (output_path w1) = [Parquet t0 \<mapsto> packet_rows p1]
           \<and> run w1 [AddPacket p2, Flush] = Inr w2
           \<and> chunk_files (output_path w2) = [Parquet t0 \<mapsto> packet_rows p2]
           \<and> index_rows (output_path w2) = [index_row t0 r1, index_row t0 r2]
           \<and> filename (index_row t0 r1) = Parquet t0 \<and> filename (index_row t0 r2) = Parquet t0
           \<and> cmd_read (output_path w2) start_ts stop_ts
               = Inr (Found (filter (\<lambda>r. ts_0 r \<in> Some ` {start_ts .. stop_ts}) (packet_rows p2)
                             @ filter (\<lambda>r. ts_0 r \<in> Some ` {start_ts .. stop_ts}) (packet_rows p2)))"
proof -
  let ?e1 = "index_row t0 r1" and ?e2 = "index_row t0 r2"
  let ?st1 = "write_chunk empty_dir (?e1, packet_rows p1)"
  let ?st2 = "write_chunk ?st1 (?e2, packet_rows p2)"
  have f: "filename ?e1 = Parquet t0" "filename ?e2 = Parquet t0"
    by (simp_all add: index_row_def)
  have "run (ChunkWriter_init empty_dir) [AddPacket p1, Flush] = run (ChunkWriter_init ?st1) []"
    by (rule run_add_flush[OF assms(1,3,5)])
  then have 1: "run (ChunkWriter_init empty_dir) [AddPacket p1, Flush] = Inr (ChunkWriter_init ?st1)"
    by simp
  have "run (ChunkWriter_init ?st1) [AddPacket p2, Flush] = run (ChunkWriter_init ?st2) []"
    by (rule run_add_flush[OF assms(2,4,6)])
  then have 2: "run (ChunkWriter_init ?st1) [AddPacket p2, Flush] = Inr (ChunkWriter_init ?st2)"
    by simp
  have c1: "chunk_files ?st1 = [Parquet t0 \<mapsto> packet_rows p1]"
    by (simp add: chunk_files_write_chunk f empty_dir_def)
  have c2: "chunk_files ?st2 = [Parquet t0 \<mapsto> packet_rows p2]"
    by (simp add: chunk_files_write_chunk f empty_dir_def)
  have "index_rows empty_dir = []" by (simp add: index_rows_def empty_dir_def)
  then have ix: "index_rows ?st2 = [?e1, ?e2]"
    by (simp add: index_rows_write_chunk)
  have "read_csv ?st1 = Inr [?e1]"
    by (simp add: read_csv_write_chunk_new empty_dir_def)
  from read_csv_write_chunk[OF this] have rd: "read_csv ?st2 = Inr [?e1, ?e2]" by simp
  from assms(7,8) have sel: "filter (index_mask start_ts stop_ts) [?e1, ?e2] = [?e1, ?e2]"
    by (simp add: index_mask_def)
  have p: "\<forall>e\<in>set (filter (index_mask start_ts stop_ts) [?e1, ?e2]).
             chunk_files ?st2 (filename e) \<noteq> None"
    by (simp only: sel) (simp add: c2 f)
  from cmd_read_present[OF rd p]
  have q: "cmd_read ?st2 start_ts stop_ts
        = Inr (Found (filter (time_mask start_ts stop_ts) (packet_rows p2)
                      @ filter (time_mask start_ts stop_ts) (packet_rows p2)))"
    by (simp only: sel) (simp add: c2 f)
  have o: "output_path (ChunkWriter_init ?st1) = ?st1" "output_path (ChunkWriter_init ?st2) = ?st2"
    by (simp_all add: ChunkWriter_init_def)
  from q have q': "cmd_read ?st2 start_ts stop_ts
        = Inr (Found (filter (\<lambda>r. ts_0 r \<in> Some ` {start_ts .. stop_ts}) (packet_rows p2)
                      @ filter (\<lambda>r. ts_0 r \<in> Some ` {start_ts .. stop_ts}) (packet_rows p2)))"
    by (simp only: time_mask_eq)
  show ?thesis
    by (intro exI[of _ "ChunkWriter_init ?st1"] exI[of _ "ChunkWriter_init ?st2"])
       (simp only: 1 2 o c1 c2 ix f q' simp_thms)
qed

theorem collision_duplication_witness:
  "run (ChunkWriter_init empty_dir) [AddPacket (ex_packet [5, 1, 9] 7), Flush,
                                     AddPacket (ex_packet [5, 7] 8), Flush] = Inr ex_collided
   \<and> (\<exists>w1. run (ChunkWriter_init empty_dir) [AddPacket (ex_packet [5, 1, 9] 7), Flush] = Inr w1
         \<and> chunk_files (output_path w1) = [Parquet 5 \<mapsto> [ex_row 5 7, ex_row 1 7, ex_row 9 7]]
         \<and> run w1 [AddPacket (ex_packet [5, 7] 8), Flush] = Inr ex_collided)
   \<and> chunk_files (output_path ex_collided) = [Parquet 5 \<mapsto> [ex_row 5 8, ex_row 7 8]]
   \<and> cmd_read (output_path ex_collided) 1 9
       = Inr (Found [ex_row 5 8, ex_row 7 8, ex_row 5 8, ex_row 7 8])"
proof -
  have t1: "timestamps (ex_packet [5, 1, 9] 7) = 5 # [1, 9]" by (simp add: ex_packet_def)
  have s1: "length (timestamps (ex_packet [5, 1, 9] 7)) < 200000" by (simp add: ex_packet_def)
  have t2: "timestamps (ex_packet [5, 7] 8) = 5 # [7]" by (simp add: ex_packet_def)
  have s2: "length (timestamps (ex_packet [5, 7] 8)) < 200000" by (simp add: ex_packet_def)
  have m1: "(1::real) \<le> max_ts (index_row 5 [1, 9]) \<and> min_ts (index_row 5 [1, 9]) \<le> 9"
    by (simp add: index_row_def)
  have m2: "(1::real) \<le> max_ts (index_row 5 [7]) \<and> min_ts (index_row 5 [7]) \<le> 9"
    by (simp add: index_row_def)
  from collision_duplication[OF ex_packet_ok ex_packet_ok t1 t2 s1 s2 m1 m2]
  obtain w1 w2 where
    a: "run (ChunkWriter_init empty_dir) [AddPacket (ex_packet [5, 1, 9] 7), Flush] = Inr w1"
    and b: "chunk_files (output_path w1) = [Parquet 5 \<mapsto> packet_rows (ex_packet [5, 1, 9] 7)]"
    and c: "run w1 [AddPacket (ex_packet [5, 7] 8), Flush] = Inr w2"
    and d: "chunk_files (output_path w2) = [Parquet 5 \<mapsto> packet_rows (ex_packet [5, 7] 8)]"
    and e: "cmd_read (output_path w2) 1 9
               = Inr (Found (filter (\<lambda>r. ts_0 r \<in> Some ` {1 .. 9}) (packet_rows (ex_packet [5, 7] 8))
                             @ filter (\<lambda>r. ts_0 r \<in> Some ` {1 .. 9}) (packet_rows (ex_packet [5, 7] 8))))"
    by blast
  have "run (ChunkWriter_init empty_dir) ([AddPacket (ex_packet [5, 1, 9] 7), Flush]
          @ [AddPacket (ex_packet [5, 7] 8), Flush]) = Inr w2"
    using a c by (simp only: run_append bind_err_Inr)
  with ex_run_collided have w2: "w2 = ex_collided" by (simp add: ex_calls_def)
  from b have b': "chunk_files (output_path w1) = [Parquet 5 \<mapsto> [ex_row 5 7, ex_row 1 7, ex_row 9 7]]"
    by (simp add: packet_rows_ex_packet)
  from d have d': "chunk_files (output_path ex_collided) = [Parquet 5 \<mapsto> [ex_row 5 8, ex_row 7 8]]"
    by (simp add: packet_rows_ex_packet w2)
  from e have e': "cmd_read (output_path ex_collided) 1 9
       = Inr (Found [ex_row 5 8, ex_row 7 8, ex_row 5 8, ex_row 7 8])"
    by (simp add: packet_rows_ex_packet w2 ex_row_def)
  from a b' c w2 have "\<exists>w1. run (ChunkWriter_init empty_dir) [AddPacket (ex_packet [5, 1, 9] 7), Flush] = Inr w1
         \<and> chunk_files (output_path w1) = [Parquet 5 \<mapsto> [ex_row 5 7, ex_row 1 7, ex_row 9 7]]
         \<and> run w1 [AddPacket (ex_packet [5, 7] 8), Flush] = Inr ex_collided"
    by blast
  with ex_run_collided d' e' show ?thesis by (simp add: ex_calls_def)
qed

section \<open>Round trip\<close>

lemma rows_of_ts: "r \<in> set (rows_of tsb scb spb) \<Longrightarrow> \<exists>t\<in>set tsb. ts_0 r = Some t"
  by (auto simp: rows_of_def dest: set_zip_leftD)

lemma ts_column_mem: "t \<in> set (ts_column df) \<Longrightarrow> \<exists>r\<in>set df. ts_0 r = Some t"
  by (auto simp: ts_column_def List.map_filter_def)

lemma entry_in_window:
  assumes e: "entry_ok (e, df)" and w: "\<forall>r\<in>set df. time_mask s t r"
  shows "index_mask s t e"
proof -
  from entry_ok_min_max[OF e] have ne: "ts_column df \<noteq> []"
    and mn: "min_ts e = Min (set (ts_column df))" and mx: "max_ts e = Max (set (ts_column df))"
    by simp_all
  have inw: "s \<le> x \<and> x \<le> t" if "x \<in> set (ts_column df)" for x
  proof -
    from ts_column_mem[OF that] obtain r where "r \<in> set df" and "ts_0 r = Some x" by blast
    with w show ?thesis by (auto simp: time_mask_def)
  qed
  from ne have "Min (set (ts_column df)) \<in> set (ts_column df)" by (intro Min_in) simp_all
  from inw[OF this] mn have 1: "min_ts e \<le> t" by simp
  from ne have "Max (set (ts_column df)) \<in> set (ts_column df)" by (intro Max_in) simp_all
  from inw[OF this] mx have 2: "s \<le> max_ts e" by simp
  from 1 2 show ?thesis by (simp add: index_mask_def)
qed

lemma chunk_files_replay_distinct:
  assumes "distinct (map (\<lambda>ec. filename (fst ec)) h)" and "ec \<in> set h"
  shows "chunk_files (replay st h) (filename (fst ec)) = Some (snd ec)"
proof -
  from assms(2) obtain h1 h2 where h: "h = h1 @ ec # h2" by (auto dest: split_list)
  with assms(1) have "filename (fst ec) \<notin> set (map (\<lambda>ec. filename (fst ec)) h2)" by auto
  from chunk_files_replay_last[OF this] h show ?thesis by simp
qed

text \<open>
  A directory written by flushes with pairwise distinct file names, read with a window
  that contains every stored timestamp: the query returns all chunks, in order.
\<close>

lemma cmd_read_replay_distinct:
  assumes ne: "h \<noteq> []" and ok: "list_all entry_ok h"
    and d: "distinct (map (\<lambda>ec. filename (fst ec)) h)"
    and w: "\<forall>r\<in>set (concat (map snd h)). time_mask s t r"
  shows "cmd_read (replay empty_dir h) s t = Inr (Found (concat (map snd h)))"
proof -
  let ?st = "replay empty_dir h"
  have rd: "read_csv ?st = Inr (map fst h)" using ne by (rule read_csv_replay_empty)
  have m: "index_mask s t (fst ec)" if "ec \<in> set h" for ec
  proof -
    from ok that have "entry_ok (fst ec, snd ec)" by (simp add: list_all_iff)
    moreover from w that have "\<forall>r\<in>set (snd ec). time_mask s t r" by auto
    ultimately show ?thesis by (rule entry_in_window)
  qed
  then have sel: "filter (index_mask s t) (map fst h) = map fst h"
    by (intro filter_True) auto
  have look: "chunk_files ?st (filename (fst ec)) = Some (snd ec)" if "ec \<in> set h" for ec
    using d that by (rule chunk_files_replay_distinct)
  have p: "\<forall>e\<in>set (filter (index_mask s t) (map fst h)). chunk_files ?st (filename e) \<noteq> None"
    unfolding sel using look by auto
  have "map (\<lambda>e. filter (time_mask s t) (the (chunk_files ?st (filename e)))) (map fst h)
        = map snd h"
  proof -
    have "filter (time_mask s t) (the (chunk_files ?st (filename (fst ec)))) = snd ec"
      if "ec \<in> set h" for ec
    proof -
      from w that have "\<forall>r\<in>set (snd ec). time_mask s t r" by auto
      then have "filter (time_mask s t) (snd ec) = snd ec" by (intro filter_True) auto
      with look[OF that] show ?thesis by simp
    qed
    then show ?thesis by (simp add: comp_def)
  qed
  with cmd_read_present[OF rd p] ne show ?thesis by (simp only: sel) simp
qed

text \<open>
  C1 (as amended). For every sequence of shape-consistent records with at least one
  row, written to the empty directory by the write loop with its final flush, the loop
  returns and the index loads; and when no two index rows carry the same file name
  (no two flushes began with the same first timestamp), a query whose window contains
  every ingested timestamp returns exactly the multiset of the ingested rows.
\<close>

theorem round_trip:
  assumes "list_all (packet_ok A B) ps" and "concat (map timestamps ps) \<noteq> []"
    and "\<forall>t\<in>set (concat (map timestamps ps)). start_ts \<le> t \<and> t \<le> stop_ts"
  shows "\<exists>w es. cmd_write empty_dir ps = Inr w \<and> read_csv (output_path w) = Inr es
           \<and> (distinct (map filename es)
                \<longrightarrow> (\<exists>df. cmd_read (output_path w) start_ts stop_ts = Inr (Found df)
                       \<and> mset df = mset (concat (map packet_rows ps))))"
proof -
  from cmd_write_ok[OF assms(1)] obtain w h where
    a: "cmd_write empty_dir ps = Inr w" and o: "output_path w = replay empty_dir h"
    and ok: "list_all entry_ok h" and r: "concat (map snd h) = concat (map packet_rows ps)"
    by blast
  have tc: "ts_column (concat (map packet_rows ps)) \<noteq> []"
    unfolding ts_column_concat_packet_rows[OF assms(1)] by (rule assms(2))
  have ne: "h \<noteq> []"
  proof
    assume "h = []"
    with r have "concat (map packet_rows ps) = []" by simp
    then have "ts_column (concat (map packet_rows ps)) = []"
      by (simp only: ts_column_def List.map_filter_simps)
    with tc show False by contradiction
  qed
  have rd: "read_csv (output_path w) = Inr (map fst h)"
    unfolding o using ne by (rule read_csv_replay_empty)
  have win: "\<forall>r\<in>set (concat (map snd h)). time_mask start_ts stop_ts r"
  proof
    fix x assume "x \<in> set (concat (map snd h))"
    then have "x \<in> set (rows_of (concat (map timestamps ps))
                  (concat (map (\<lambda>q. data (scattering q)) ps))
                  (concat (map (\<lambda>q. data (spectral q)) ps)))"
      by (simp only: r concat_packet_rows[OF assms(1)])
    from rows_of_ts[OF this] obtain t where "t \<in> set (concat (map timestamps ps))"
      and "ts_0 x = Some t" by blast
    with assms(3) show "time_mask start_ts stop_ts x" by (auto simp: time_mask_def)
  qed
  have "\<exists>df. cmd_read (output_path w) start_ts stop_ts = Inr (Found df)
              \<and> mset df = mset (concat (map packet_rows ps))"
    if "distinct (map filename (map fst h))"
  proof -
    from that have d: "distinct (map (\<lambda>ec. filename (fst ec)) h)" by (simp add: comp_def)
    from cmd_read_replay_distinct[OF ne ok d win]
    have "cmd_read (output_path w) start_ts stop_ts = Inr (Found (concat (map snd h)))"
      by (simp only: o)
    with r show ?thesis by simp
  qed
  with a rd show ?thesis by blast
qed

lemma index_row_single: "index_row t [] = \<lparr>filename = Parquet t, min_ts = t, max_ts = t\<rparr>"
  by (simp add: index_row_def)

lemma ex_cmd_write_lost: "cmd_write empty_dir [ex_big, ex_packet [1] 7] = Inr ex_lost"
proof -
  let ?p = "ex_packet [1] 7"
  let ?w1 = "buffer_packet ex_auto ?p"
  have z: "particle_counter ex_auto = 0" by (simp add: ex_auto_def written_def)
  then have a: "add_packet ex_auto ?p = Inr ?w1"
    by (simp add: add_packet_def buffer_packet_def ex_packet_def)
  have "holds [] ex_auto" unfolding ex_auto_def by (rule holds_written)
  from holds_buffer_packet[OF this ex_packet_ok] have h: "holds ([] @ [?p]) ?w1" .
  have l: "list_all (packet_ok [2, 2] [3]) ([] @ [?p])" using ex_packet_ok by simp
  have c: "concat (map timestamps ([] @ [?p])) = 1 # []" by (simp add: ex_packet_def)
  from flush_holds[OF h l c]
  have f: "flush ?w1 = Inr (written ?w1 1 [] [ex_row 1 7])"
    by (simp add: packet_rows_ex_packet)
  have "written ?w1 1 [] [ex_row 1 7] = ex_lost"
    by (simp add: written_def buffer_packet_def ex_auto_def ex_lost_def ChunkWriter_init_def
        to_csv_append_def to_parquet_def empty_dir_def index_header_def
        index_row_ones index_row_single)
  with f have "flush ?w1 = Inr ex_lost" by simp
  with a ex_big_auto show ?thesis by (simp add: cmd_write_def)
qed

text \<open>
  The stream of \<open>ex_big\<close> (200000 rows at timestamp 1, flushed automatically) and one
  more row at timestamp 1 (flushed by the final flush): both chunks are named after
  timestamp 1, the second overwrites the first, and the query over the full span 1 to 1
  returns the last row twice instead of the 200001 rows ingested.
\<close>

theorem round_trip_counterexample:
  "packet_ok [2, 2] [3] ex_big \<and> packet_ok [2, 2] [3] (ex_packet [1] 7)
   \<and> set (concat (map timestamps [ex_big, ex_packet [1] 7])) = {1}
   \<and> cmd_write empty_dir [ex_big, ex_packet [1] 7] = Inr ex_lost
   \<and> cmd_read (output_path ex_lost) 1 1 = Inr (Found [ex_row 1 7, ex_row 1 7])
   \<and> mset [ex_row 1 7, ex_row 1 7] \<noteq> mset (concat (map packet_rows [ex_big, ex_packet [1] 7]))"
proof -
  have 1: "packet_ok [2, 2] [3] ex_big" unfolding ex_big_def by (rule ex_packet_ok)
  have 2: "packet_ok [2, 2] [3] (ex_packet [1] 7)" by (rule ex_packet_ok)
  have 3: "set (concat (map timestamps [ex_big, ex_packet [1] 7])) = {1}"
    by (simp add: ex_big_def ex_packet_def)
  have 4: "cmd_read (output_path ex_lost) 1 1 = Inr (Found [ex_row 1 7, ex_row 1 7])"
    by (simp add: cmd_read_def read_csv_def read_parquet_def index_mask_def time_mask_def
        ex_lost_def ChunkWriter_init_def index_header_def ex_row_def)
  have "length (concat (map packet_rows [ex_big, ex_packet [1] 7])) = 200001"
    by (simp add: packet_rows_ex_packet ex_big_def)
  then have "size (mset (concat (map packet_rows [ex_big, ex_packet [1] 7]))) = 200001"
    by (simp only: size_mset)
  moreover have "size (mset [ex_row 1 7, ex_row 1 7]) = 2" by simp
  ultimately have 5: "mset [ex_row 1 7, ex_row 1 7]
                      \<noteq> mset (concat (map packet_rows [ex_big, ex_packet [1] 7]))"
  proof -
    assume s1: "size (mset (concat (map packet_rows [ex_big, ex_packet [1] 7]))) = 200001"
      and s2: "size (mset [ex_row 1 7, ex_row 1 7]) = 2"
    show ?thesis
    proof
      assume "mset [ex_row 1 7, ex_row 1 7]
              = mset (concat (map packet_rows [ex_big, ex_packet [1] 7]))"
      then have "size (mset [ex_row 1 7, ex_row 1 7])
              = size (mset (concat (map packet_rows [ex_big, ex_packet [1] 7])))"
        by (rule arg_cong)
      then have "(2::nat) = 200001" by (simp only: s1 s2)
      then show False by simp
    qed
  qed
  from 1 2 3 4 5 ex_cmd_write_lost show ?thesis by simp
qed

lemma ex_cmd_write_stored:
  "cmd_write empty_dir [ex_packet [1, 2] 7, ex_packet [3] 8] = Inr ex_stored"
proof -
  let ?p1 = "ex_packet [1, 2] 7" and ?p2 = "ex_packet [3] 8"
  let ?w0 = "ChunkWriter_init empty_dir"
  let ?w1 = "buffer_packet ?w0 ?p1"
  let ?w2 = "buffer_packet ?w1 ?p2"
  have a1: "add_packet ?w0 ?p1 = Inr ?w1"
    by (simp add: add_packet_def buffer_packet_def ChunkWriter_init_def ex_packet_def)
  have a2: "add_packet ?w1 ?p2 = Inr ?w2"
    by (simp add: add_packet_def buffer_packet_def ChunkWriter_init_def ex_packet_def)
  from holds_buffer_packet[OF holds_init ex_packet_ok] have "holds ([] @ [?p1]) ?w1" .
  from holds_buffer_packet[OF this ex_packet_ok] have h: "holds (([] @ [?p1]) @ [?p2]) ?w2" .
  have l: "list_all (packet_ok [2, 2] [3]) (([] @ [?p1]) @ [?p2])" using ex_packet_ok by simp
  have c: "concat (map timestamps (([] @ [?p1]) @ [?p2])) = 1 # [2, 3]"
    by (simp add: ex_packet_def)
  from flush_holds[OF h l c]
  have f: "flush ?w2 = Inr (written ?w2 1 [2, 3] [ex_row 1 7, ex_row 2 7, ex_row 3 8])"
    by (simp add: packet_rows_ex_packet)
  have "written ?w2 1 [2, 3] [ex_row 1 7, ex_row 2 7, ex_row 3 8] = ex_stored"
    by (simp add: written_def buffer_packet_def ex_stored_def ChunkWriter_init_def
        to_csv_append_def to_parquet_def empty_dir_def index_header_def index_row_def)
  with f have "flush ?w2 = Inr ex_stored" by simp
  with a1 a2 show ?thesis by (simp add: cmd_write_def)
qed

theorem round_trip_witness:
  "cmd_write empty_dir [ex_packet [1, 2] 7, ex_packet [3] 8] = Inr ex_stored
   \<and> read_csv (output_path ex_stored) = Inr [\<lparr>filename = Parquet 1, min_ts = 1, max_ts = 3\<rparr>]
   \<and> (\<exists>df. cmd_read (output_path ex_stored) 1 3 = Inr (Found df)
         \<and> mset df = mset [ex_row 1 7, ex_row 2 7, ex_row 3 8])"
proof -
  let ?ps = "[ex_packet [1, 2] 7, ex_packet [3] 8]"
  have ok: "list_all (packet_ok [2, 2] [3]) ?ps" using ex_packet_ok by simp
  have ts: "concat (map timestamps ?ps) = [1, 2, 3]" by (simp add: ex_packet_def)
  have ne: "concat (map timestamps ?ps) \<noteq> []" unfolding ts by simp
  have win: "\<forall>t\<in>set (concat (map timestamps ?ps)). (1::real) \<le> t \<and> t \<le> 3"
    unfolding ts by simp
  have rd: "read_csv (output_path ex_stored)
            = Inr [\<lparr>filename = Parquet 1, min_ts = 1, max_ts = 3\<rparr>]"
    by (simp add: read_csv_def ex_stored_def ChunkWriter_init_def index_header_def)
  from round_trip[OF ok ne win] obtain w es where
    a: "cmd_write empty_dir ?ps = Inr w" and b: "read_csv (output_path w) = Inr es"
    and c: "distinct (map filename es)
            \<longrightarrow> (\<exists>df. cmd_read (output_path w) 1 3 = Inr (Found df)
                   \<and> mset df = mset (concat (map packet_rows ?ps)))"
    by blast
  from a ex_cmd_write_stored have w: "w = ex_stored" by simp
  with b rd have es: "es = [\<lparr>filename = Parquet 1, min_ts = 1, max_ts = 3\<rparr>]" by simp
  from c have "\<exists>df. cmd_read (output_path ex_stored) 1 3 = Inr (Found df)
         \<and> mset df = mset [ex_row 1 7, ex_row 2 7, ex_row 3 8]"
    unfolding w es by (simp add: packet_rows_ex_packet)
  with ex_cmd_write_stored rd show ?thesis by simp
qed

end
